theory Spec2Isabelle
  imports Complex_Main "HOL-Library.Sublist" "HOL-Library.Multiset"
    "HOL-Library.Char_ord" "HOL-Library.List_Lexorder"
begin

section \<open>Go string primitives used by the path normalizer and the scanner\<close>

text \<open>
  Go strings are byte sequences, modelled as \<^typ>\<open>string\<close> (a list of 8-bit characters).
  \<^verbatim>\<open>strings.HasPrefix(s, prefix)\<close> is
  \<^verbatim>\<open>len(s) >= len(prefix) && s[:len(prefix)] == prefix\<close>.
\<close>

definition HasPrefix :: "string \<Rightarrow> string \<Rightarrow> bool" where
  "HasPrefix s pre = (length pre \<le> length s \<and> take (length pre) s = pre)"

text \<open>
  \<^verbatim>\<open>strings.Index(s, substr)\<close>: the index of the first instance of \<open>substr\<close> in \<open>s\<close>,
  or \<open>-1\<close> when \<open>substr\<close> does not occur. The scan carries the index of the position it
  is looking at.
\<close>

fun Index_from :: "nat \<Rightarrow> string \<Rightarrow> string \<Rightarrow> int" where
  "Index_from i [] substr = (if substr = [] then int i else - 1)"
| "Index_from i (c # cs) substr =
     (if HasPrefix (c # cs) substr then int i else Index_from (Suc i) cs substr)"

definition Index :: "string \<Rightarrow> string \<Rightarrow> int" where
  "Index s substr = Index_from 0 s substr"

text \<open>\<^verbatim>\<open>strings.Contains(s, substr)\<close> is \<^verbatim>\<open>Index(s, substr) >= 0\<close>.\<close>

definition Contains :: "string \<Rightarrow> string \<Rightarrow> bool" where
  "Contains s substr = (0 \<le> Index s substr)"

text \<open>
  \<^verbatim>\<open>filepath.ToSlash(path)\<close>: when the platform separator is \<open>/\<close> the path is returned
  as it is, otherwise every separator is replaced by \<open>/\<close>. The separator is a constant of
  the platform the program is built for, so it is a parameter here.
\<close>

definition ToSlash :: "char \<Rightarrow> string \<Rightarrow> string" where
  "ToSlash sep path =
     (if sep = CHR ''/'' then path
      else map (\<lambda>c. if c = sep then CHR ''/'' else c) path)"

text \<open>
  A specification-level notion used to state where a marker stands: \<open>occurs_at m p i\<close>
  says that the bytes of \<open>m\<close> stand in \<open>p\<close> from index \<open>i\<close> on.
\<close>

definition occurs_at :: "string \<Rightarrow> string \<Rightarrow> nat \<Rightarrow> bool" where
  "occurs_at m p i = (i + length m \<le> length p \<and> take (length m) (drop i p) = m)"

text \<open>\<open>occurs m p\<close>: the bytes of \<open>m\<close> stand somewhere in \<open>p\<close>.\<close>

definition occurs :: "string \<Rightarrow> string \<Rightarrow> bool" where
  "occurs m p = list_ex (occurs_at m p) [0..<Suc (length p)]"

section \<open>Path normalizer (storage package)\<close>

text \<open>
  \<^verbatim>\<open>extractRelativePath\<close> walks the markers in the order
  \<^verbatim>\<open>[]string{"/movies/", "/shows/", "/4k/"}\<close> and returns at the first marker that
  occurs in the path, with the path cut at that marker's first occurrence
  (\<^verbatim>\<open>fullPath[idx:]\<close>). The loop over the markers is \<open>extractLoop\<close>.
\<close>

definition markers :: "string list" where
  "markers = [''/movies/'', ''/shows/'', ''/4k/'']"

fun extractLoop :: "string list \<Rightarrow> string \<Rightarrow> string" where
  "extractLoop [] fullPath = fullPath"
| "extractLoop (marker # rest) fullPath =
     (let idx = Index fullPath marker
      in if idx \<noteq> - 1 then drop (nat idx) fullPath else extractLoop rest fullPath)"

definition extractRelativePath :: "string \<Rightarrow> string" where
  "extractRelativePath fullPath = extractLoop markers fullPath"

text \<open>
  \<^verbatim>\<open>normalizeLocalPath\<close> removes the four bytes \<open>/mnt\<close> from the front of a path that
  starts with them (\<^verbatim>\<open>path[4:]\<close>).
\<close>

definition normalizeLocalPath :: "string \<Rightarrow> string" where
  "normalizeLocalPath path = (if HasPrefix path ''/mnt'' then drop 4 path else path)"

text \<open>
  The normalized key of a local path is what \<^verbatim>\<open>InsertLocalFiles\<close> stores in the
  \<open>relative_path\<close> column: \<^verbatim>\<open>extractRelativePath(normalizeLocalPath(file.FilePath))\<close>.
  The key of a remote path is \<open>extractRelativePath\<close> alone.
\<close>

definition normalizedKey :: "string \<Rightarrow> string" where
  "normalizedKey path = extractRelativePath (normalizeLocalPath path)"

text \<open>
  The reading of the key computation as "cut at the earliest index at which any marker
  occurs", written out to be compared with \<open>extractRelativePath\<close>: the smallest of the
  indices of the markers that occur.
\<close>

definition earliestMarkerIndex :: "string \<Rightarrow> int" where
  "earliestMarkerIndex p =
     (let found = filter (\<lambda>i. i \<noteq> - 1) (map (Index p) markers)
      in if found = [] then - 1 else Min (set found))"

definition earliestMarkerKey :: "string \<Rightarrow> string" where
  "earliestMarkerKey p =
     (let idx = earliestMarkerIndex p in if idx \<noteq> - 1 then drop (nat idx) p else p)"

section \<open>Scanner: category of a path\<close>

record Scanner =
  basePath :: string
  categories :: "string list"

definition NewScanner :: "string \<Rightarrow> Scanner" where
  "NewScanner bp = \<lparr> basePath = bp, categories = [''4k'', ''movies'', ''shows''] \<rparr>"

text \<open>
  \<^verbatim>\<open>categorize\<close>: the first configured category whose pattern
  \<^verbatim>\<open>"/" + category + "/"\<close> is contained in the slash-normalized path, and
  \<^verbatim>\<open>"unknown"\<close> when the loop ends without a match.
\<close>

fun categorizeLoop :: "string list \<Rightarrow> string \<Rightarrow> string" where
  "categorizeLoop [] normalizedPath = ''unknown''"
| "categorizeLoop (category # rest) normalizedPath =
     (let pattern = ''/'' @ category @ ''/''
      in if Contains normalizedPath pattern then category
         else categorizeLoop rest normalizedPath)"

definition categorize :: "char \<Rightarrow> Scanner \<Rightarrow> string \<Rightarrow> string" where
  "categorize sep s path = categorizeLoop (categories s) (ToSlash sep path)"

section \<open>Go integers\<close>

text \<open>
  Go's \<^verbatim>\<open>int\<close> (on the 64-bit platforms the program is built for) and \<^verbatim>\<open>int64\<close>
  are 64-bit two's complement integers whose arithmetic wraps around silently. They are
  modelled as \<^typ>\<open>int\<close>, and \<open>wrap64\<close> is written wherever the source computes a sum
  or a product that can leave the range. Integer division truncates towards zero and
  panics on a zero divisor.
\<close>

definition wrap64 :: "int \<Rightarrow> int" where
  "wrap64 x = (x + 2 ^ 63) mod 2 ^ 64 - 2 ^ 63"

definition quo :: "int \<Rightarrow> int \<Rightarrow> int" where
  "quo a b = (if (a < 0) = (b < 0) then \<bar>a\<bar> div \<bar>b\<bar> else - (\<bar>a\<bar> div \<bar>b\<bar>))"

text \<open>
  \<^verbatim>\<open>strconv.Atoi\<close>: an optional sign followed by at least one decimal digit and
  nothing else; a value outside the 64-bit range is an error (\<open>None\<close>).
\<close>

definition digitVal :: "char \<Rightarrow> nat option" where
  "digitVal c =
     (let n = (of_char c :: nat) in if 48 \<le> n \<and> n \<le> 57 then Some (n - 48) else None)"

fun parseDigits :: "nat \<Rightarrow> string \<Rightarrow> nat option" where
  "parseDigits acc [] = Some acc"
| "parseDigits acc (c # cs) =
     (case digitVal c of None \<Rightarrow> None | Some d \<Rightarrow> parseDigits (acc * 10 + d) cs)"

definition Atoi :: "string \<Rightarrow> int option" where
  "Atoi s =
     (let neg = (s \<noteq> [] \<and> hd s = CHR ''-'');
          ds = (if s \<noteq> [] \<and> (hd s = CHR ''-'' \<or> hd s = CHR ''+'') then tl s else s)
      in if ds = [] then None
         else (case parseDigits 0 ds of
                 None \<Rightarrow> None
               | Some n \<Rightarrow>
                   (let v = (if neg then - int n else int n)
                    in if - (2 ^ 63) \<le> v \<and> v < 2 ^ 63 then Some v else None)))"

section \<open>Configuration (config package)\<close>

record Config =
  LocalHost :: string
  LocalPort :: int
  QBittorrentHost :: string
  QBittorrentPort :: int
  QBittorrentUsername :: string
  QBittorrentPassword :: string
  QBittorrentMaxWorkers :: int
  SQLitePath :: string
  SQLiteBatchSize :: int
  LocalPath :: string

text \<open>
  The errors \<^verbatim>\<open>Validate\<close> builds with \<^verbatim>\<open>fmt.Errorf\<close>: the setting's name with
  \<^verbatim>\<open>ErrInvalidPort\<close> or \<^verbatim>\<open>ErrInvalidPath\<close> wrapped, or the "must be at least 1"
  message with the offending value.
\<close>

datatype config_error =
    ErrInvalidPort string int
  | ErrInvalidPath string
  | ErrMustBeAtLeast1 string int

definition isValidPort :: "int \<Rightarrow> bool" where
  "isValidPort port = (port \<ge> 1 \<and> port \<le> 65535)"

text \<open>\<^verbatim>\<open>Validate\<close> returns \<open>None\<close> for \<^verbatim>\<open>nil\<close>.\<close>

definition Validate :: "Config \<Rightarrow> config_error option" where
  "Validate c =
     (if \<not> isValidPort (LocalPort c) then Some (ErrInvalidPort ''LOCAL_PORT'' (LocalPort c))
      else if \<not> isValidPort (QBittorrentPort c)
        then Some (ErrInvalidPort ''QBITTORRENT_PORT'' (QBittorrentPort c))
      else if SQLitePath c = [] then Some (ErrInvalidPath ''SQLITE_PATH'')
      else if LocalPath c = [] then Some (ErrInvalidPath ''LOCAL_PATH'')
      else if QBittorrentMaxWorkers c < 1
        then Some (ErrMustBeAtLeast1 ''QBITTORRENT_MAX_WORKERS'' (QBittorrentMaxWorkers c))
      else if SQLiteBatchSize c < 1
        then Some (ErrMustBeAtLeast1 ''SQLITE_BATCH_SIZE'' (SQLiteBatchSize c))
      else None)"

text \<open>
  The defaults \<^verbatim>\<open>Load\<close> starts from, and the override step of \<^verbatim>\<open>loadFromFile\<close>
  once the file is parsed into \<open>fileCfg\<close>: only non-zero values of the file replace the
  values already there.
\<close>

definition defaultConfig :: Config where
  "defaultConfig =
     \<lparr> LocalHost = ''localhost'', LocalPort = 61913,
       QBittorrentHost = ''qbt.home'', QBittorrentPort = 80,
       QBittorrentUsername = ''admin'', QBittorrentPassword = ''adminadmin'',
       QBittorrentMaxWorkers = 10,
       SQLitePath = ''./data/torrents.db'', SQLiteBatchSize = 1000,
       LocalPath = ''./data/torrents'' \<rparr>"

definition loadFromFile :: "Config \<Rightarrow> Config \<Rightarrow> Config" where
  "loadFromFile fileCfg c =
     \<lparr> LocalHost = (if LocalHost fileCfg \<noteq> [] then LocalHost fileCfg else LocalHost c),
       LocalPort = (if LocalPort fileCfg \<noteq> 0 then LocalPort fileCfg else LocalPort c),
       QBittorrentHost =
         (if QBittorrentHost fileCfg \<noteq> [] then QBittorrentHost fileCfg else QBittorrentHost c),
       QBittorrentPort =
         (if QBittorrentPort fileCfg \<noteq> 0 then QBittorrentPort fileCfg else QBittorrentPort c),
       QBittorrentUsername =
         (if QBittorrentUsername fileCfg \<noteq> [] then QBittorrentUsername fileCfg
          else QBittorrentUsername c),
       QBittorrentPassword =
         (if QBittorrentPassword fileCfg \<noteq> [] then QBittorrentPassword fileCfg
          else QBittorrentPassword c),
       QBittorrentMaxWorkers =
         (if QBittorrentMaxWorkers fileCfg \<noteq> 0 then QBittorrentMaxWorkers fileCfg
          else QBittorrentMaxWorkers c),
       SQLitePath = (if SQLitePath fileCfg \<noteq> [] then SQLitePath fileCfg else SQLitePath c),
       SQLiteBatchSize =
         (if SQLiteBatchSize fileCfg \<noteq> 0 then SQLiteBatchSize fileCfg else SQLiteBatchSize c),
       LocalPath = (if LocalPath fileCfg \<noteq> [] then LocalPath fileCfg else LocalPath c) \<rparr>"

text \<open>
  \<^verbatim>\<open>loadFromEnv\<close>: an environment variable that is set (non-empty) replaces the value;
  for the integer settings only when \<^verbatim>\<open>strconv.Atoi\<close> accepts it. The environment is
  a function from names to values, \<^verbatim>\<open>os.Getenv\<close> giving the empty string for a name
  that is not set.
\<close>

definition envString :: "(string \<Rightarrow> string) \<Rightarrow> string \<Rightarrow> string \<Rightarrow> string" where
  "envString getenv key cur = (let v = getenv key in if v \<noteq> [] then v else cur)"

definition envInt :: "(string \<Rightarrow> string) \<Rightarrow> string \<Rightarrow> int \<Rightarrow> int" where
  "envInt getenv key cur =
     (let v = getenv key
      in if v \<noteq> [] then (case Atoi v of Some i \<Rightarrow> i | None \<Rightarrow> cur) else cur)"

definition loadFromEnv :: "(string \<Rightarrow> string) \<Rightarrow> Config \<Rightarrow> Config" where
  "loadFromEnv getenv c =
     \<lparr> LocalHost = envString getenv ''LOCAL_HOST'' (LocalHost c),
       LocalPort = envInt getenv ''LOCAL_PORT'' (LocalPort c),
       QBittorrentHost = envString getenv ''QBITTORRENT_HOST'' (QBittorrentHost c),
       QBittorrentPort = envInt getenv ''QBITTORRENT_PORT'' (QBittorrentPort c),
       QBittorrentUsername = envString getenv ''QBITTORRENT_USERNAME'' (QBittorrentUsername c),
       QBittorrentPassword = envString getenv ''QBITTORRENT_PASSWORD'' (QBittorrentPassword c),
       QBittorrentMaxWorkers =
         envInt getenv ''QBITTORRENT_MAX_WORKERS'' (QBittorrentMaxWorkers c),
       SQLitePath = envString getenv ''SQLITE_PATH'' (SQLitePath c),
       SQLiteBatchSize = envInt getenv ''SQLITE_BATCH_SIZE'' (SQLiteBatchSize c),
       LocalPath = envString getenv ''LOCAL_PATH'' (LocalPath c) \<rparr>"

text \<open>
  \<^verbatim>\<open>Load\<close>: defaults, then the file, then the environment, then \<^verbatim>\<open>Validate\<close>. The
  file is \<open>NoFile\<close> when it does not exist (ignored), \<open>BadFile\<close> when it cannot be read
  or parsed (an error), and \<open>File fileCfg\<close> when it parses.
\<close>

datatype config_file = NoFile | BadFile | File Config

datatype load_error = LoadFileFailed | Invalid config_error

definition Load :: "config_file \<Rightarrow> (string \<Rightarrow> string) \<Rightarrow> load_error + Config" where
  "Load file getenv =
     (case file of
        BadFile \<Rightarrow> Inl LoadFileFailed
      | _ \<Rightarrow>
        (let cfg0 = (case file of File fileCfg \<Rightarrow> loadFromFile fileCfg defaultConfig
                                | _ \<Rightarrow> defaultConfig);
             cfg = loadFromEnv getenv cfg0
         in case Validate cfg of Some err \<Rightarrow> Inl (Invalid err) | None \<Rightarrow> Inr cfg))"

section \<open>qBittorrent client construction\<close>

record QbtConfig =
  Host :: string
  Username :: string
  Password :: string
  Timeout :: int

record Client =
  client :: QbtConfig
  maxWorkers :: int

datatype client_error = ErrHostEmpty

text \<open>
  \<^verbatim>\<open>NewClient\<close>: an empty host is an error; a worker count that is not positive is
  replaced by 10 (\<^verbatim>\<open>if maxWorkers <= 0 { maxWorkers = 10 }\<close>).
\<close>

definition NewClient :: "string \<Rightarrow> string \<Rightarrow> string \<Rightarrow> int \<Rightarrow> client_error + Client" where
  "NewClient host username password maxWorkers0 =
     (if host = [] then Inl ErrHostEmpty
      else
        (let maxWorkers1 = (if maxWorkers0 \<le> 0 then 10 else maxWorkers0)
         in Inr \<lparr> client = \<lparr> Host = host, Username = username, Password = password,
                              Timeout = 30 \<rparr>,
                   maxWorkers = maxWorkers1 \<rparr>))"

section \<open>Records of the models package\<close>

record Torrent =
  Hash :: string
  Name :: string
  Size :: int
  SavePath :: string

record TorrentFile =
  TorrentHash :: string
  TorrentName :: string
  FileName :: string
  FilePath :: string
  Size :: int

record LocalFile =
  FilePath :: string
  FileName :: string
  Size :: int
  Category :: string

record OrphanFile =
  FilePath :: string
  FileName :: string
  Size :: int
  Category :: string

record QueryOptions =
  Page :: int
  PerPage :: int
  Sort :: string
  Order :: string
  Search :: string
  Category :: string

section \<open>The store (storage package): tables, inserts, clears\<close>

text \<open>
  The two tables of \<^verbatim>\<open>Initialize\<close>. A row carries the columns of its table but
  \<open>created_at\<close>, which no query reads; the fields are named after the columns, with the
  aliases \<open>t\<close> and \<open>l\<close> the orphan query gives the tables. \<open>id\<close> is
  \<^verbatim>\<open>INTEGER PRIMARY KEY AUTOINCREMENT\<close>: the store keeps, per table, the largest id it
  has ever given (\<open>sqlite_sequence\<close>), and a new row gets the next one. A table is the
  list of its rows in the order in which they were inserted.
\<close>

record torrent_files_row =
  t_id :: nat
  t_torrent_hash :: string
  t_torrent_name :: string
  t_file_name :: string
  t_file_path :: string
  t_relative_path :: string
  t_size :: int

record local_files_row =
  l_id :: nat
  l_file_path :: string
  l_file_name :: string
  l_relative_path :: string
  l_size :: int
  l_category :: string

record DB =
  torrent_files :: "torrent_files_row list"
  local_files :: "local_files_row list"
  torrent_files_seq :: nat
  local_files_seq :: nat

text \<open>The store after \<^verbatim>\<open>Initialize\<close> on a new database file.\<close>

definition emptyDB :: DB where
  "emptyDB = \<lparr> torrent_files = [], local_files = [], torrent_files_seq = 0,
               local_files_seq = 0 \<rparr>"

text \<open>
  The database driver can report an error at any call. A \<open>fault\<close> says at which call of
  an operation it does: at \<^verbatim>\<open>BeginTx\<close>, at \<^verbatim>\<open>PrepareContext\<close>, at the
  \<open>n\<close>-th \<^verbatim>\<open>ExecContext\<close> of the operation (counted from 0), or at \<^verbatim>\<open>Commit\<close>.
  The last error value stands for the run-time panic of a slice expression out of bounds.
\<close>

datatype fault = NoFault | FailBegin | FailPrepare | FailExec nat | FailCommit

datatype storage_error =
  ErrBeginTx | ErrPrepare | ErrInsert | ErrCommit | ErrClear | PanicSliceBounds

text \<open>
  An open transaction: the rows of the table as the transaction sees them, the table's
  id sequence, and the number of statements executed so far. Nothing of it reaches the
  store before \<^verbatim>\<open>Commit\<close> succeeds; \<^verbatim>\<open>defer tx.Rollback()\<close> drops it on every
  other way out.
\<close>

record 'r tx =
  tx_rows :: "'r list"
  tx_seq :: nat
  tx_execs :: nat

text \<open>The Go slice expression \<^verbatim>\<open>xs[i:j]\<close> for \<open>0 \<le> i \<le> j \<le> len(xs)\<close>.\<close>

definition slice :: "'a list \<Rightarrow> int \<Rightarrow> int \<Rightarrow> 'a list" where
  "slice xs i j = take (nat (j - i)) (drop (nat i) xs)"

text \<open>
  One execution of the prepared \<^verbatim>\<open>INSERT INTO torrent_files\<close>: the row is appended
  with the next id.
\<close>

definition execInsertTorrent ::
  "fault \<Rightarrow> torrent_files_row tx \<Rightarrow> TorrentFile \<Rightarrow> string \<Rightarrow> storage_error + torrent_files_row tx"
where
  "execInsertTorrent flt tx file relativePath =
     (if flt = FailExec (tx_execs tx) then Inl ErrInsert
      else Inr \<lparr> tx_rows = tx_rows tx @
                   [\<lparr> t_id = Suc (tx_seq tx),
                      t_torrent_hash = TorrentHash file,
                      t_torrent_name = TorrentName file,
                      t_file_name = TorrentFile.FileName file,
                      t_file_path = TorrentFile.FilePath file,
                      t_relative_path = relativePath,
                      t_size = TorrentFile.Size file \<rparr>],
                 tx_seq = Suc (tx_seq tx),
                 tx_execs = Suc (tx_execs tx) \<rparr>)"

text \<open>The inner loop \<^verbatim>\<open>for _, file := range files[i:end]\<close> of \<^verbatim>\<open>InsertTorrentFiles\<close>.\<close>

fun insertTorrentBatch ::
  "fault \<Rightarrow> TorrentFile list \<Rightarrow> torrent_files_row tx \<Rightarrow> storage_error + torrent_files_row tx"
where
  "insertTorrentBatch flt [] tx = Inr tx"
| "insertTorrentBatch flt (file # rest) tx =
     (let relativePath = extractRelativePath (TorrentFile.FilePath file)
      in case execInsertTorrent flt tx file relativePath of
           Inl err \<Rightarrow> Inl err
         | Inr tx' \<Rightarrow> insertTorrentBatch flt rest tx')"

text \<open>
  The outer loop \<^verbatim>\<open>for i := 0; i < len(files); i += s.batchSize\<close>. With a batch size
  of 0 the loop never ends (the result is \<open>None\<close>); with a negative batch size
  \<^verbatim>\<open>files[i:end]\<close> has \<open>end < i\<close> and panics.
\<close>

partial_function (option) insertTorrentLoop ::
  "fault \<Rightarrow> int \<Rightarrow> TorrentFile list \<Rightarrow> int \<Rightarrow> torrent_files_row tx
     \<Rightarrow> (storage_error + torrent_files_row tx) option"
where
  "insertTorrentLoop flt batchSize files i tx =
     (if i < int (length files) then
        (let end0 = i + batchSize;
             end1 = (if end0 > int (length files) then int (length files) else end0)
         in if end1 < i then Some (Inl PanicSliceBounds)
            else (case insertTorrentBatch flt (slice files i end1) tx of
                    Inl err \<Rightarrow> Some (Inl err)
                  | Inr tx' \<Rightarrow> insertTorrentLoop flt batchSize files (i + batchSize) tx'))
      else Some (Inr tx))"

text \<open>
  \<^verbatim>\<open>InsertTorrentFiles\<close>: nothing to do for an empty slice; otherwise one transaction
  around the whole loop. The result is the returned error (\<open>None\<close> for \<^verbatim>\<open>nil\<close>) and
  the store afterwards.
\<close>

definition InsertTorrentFiles ::
  "fault \<Rightarrow> int \<Rightarrow> DB \<Rightarrow> TorrentFile list \<Rightarrow> (storage_error option \<times> DB) option"
where
  "InsertTorrentFiles flt batchSize db files =
     (if length files = 0 then Some (None, db)
      else if flt = FailBegin then Some (Some ErrBeginTx, db)
      else if flt = FailPrepare then Some (Some ErrPrepare, db)
      else
        (case insertTorrentLoop flt batchSize files 0
                \<lparr> tx_rows = torrent_files db, tx_seq = torrent_files_seq db, tx_execs = 0 \<rparr> of
           None \<Rightarrow> None
         | Some (Inl err) \<Rightarrow> Some (Some err, db)
         | Some (Inr tx') \<Rightarrow>
             (if flt = FailCommit then Some (Some ErrCommit, db)
              else Some (None, db\<lparr> torrent_files := tx_rows tx',
                                     torrent_files_seq := tx_seq tx' \<rparr>))))"

text \<open>
  One execution of the prepared \<^verbatim>\<open>INSERT OR REPLACE INTO local_files\<close>: the column
  \<open>file_path\<close> is \<^verbatim>\<open>UNIQUE\<close>, so a row with the same path is deleted first, and the
  new row is appended with the next id.
\<close>

definition execInsertLocal ::
  "fault \<Rightarrow> local_files_row tx \<Rightarrow> string \<Rightarrow> LocalFile \<Rightarrow> string
     \<Rightarrow> storage_error + local_files_row tx"
where
  "execInsertLocal flt tx normalizedPath file relativePath =
     (if flt = FailExec (tx_execs tx) then Inl ErrInsert
      else Inr \<lparr> tx_rows = filter (\<lambda>r. l_file_path r \<noteq> normalizedPath) (tx_rows tx) @
                   [\<lparr> l_id = Suc (tx_seq tx),
                      l_file_path = normalizedPath,
                      l_file_name = LocalFile.FileName file,
                      l_relative_path = relativePath,
                      l_size = LocalFile.Size file,
                      l_category = LocalFile.Category file \<rparr>],
                 tx_seq = Suc (tx_seq tx),
                 tx_execs = Suc (tx_execs tx) \<rparr>)"

fun insertLocalBatch ::
  "fault \<Rightarrow> LocalFile list \<Rightarrow> local_files_row tx \<Rightarrow> storage_error + local_files_row tx"
where
  "insertLocalBatch flt [] tx = Inr tx"
| "insertLocalBatch flt (file # rest) tx =
     (let normalizedPath = normalizeLocalPath (LocalFile.FilePath file);
          relativePath = extractRelativePath normalizedPath
      in case execInsertLocal flt tx normalizedPath file relativePath of
           Inl err \<Rightarrow> Inl err
         | Inr tx' \<Rightarrow> insertLocalBatch flt rest tx')"

partial_function (option) insertLocalLoop ::
  "fault \<Rightarrow> int \<Rightarrow> LocalFile list \<Rightarrow> int \<Rightarrow> local_files_row tx
     \<Rightarrow> (storage_error + local_files_row tx) option"
where
  "insertLocalLoop flt batchSize files i tx =
     (if i < int (length files) then
        (let end0 = i + batchSize;
             end1 = (if end0 > int (length files) then int (length files) else end0)
         in if end1 < i then Some (Inl PanicSliceBounds)
            else (case insertLocalBatch flt (slice files i end1) tx of
                    Inl err \<Rightarrow> Some (Inl err)
                  | Inr tx' \<Rightarrow> insertLocalLoop flt batchSize files (i + batchSize) tx'))
      else Some (Inr tx))"

definition InsertLocalFiles ::
  "fault \<Rightarrow> int \<Rightarrow> DB \<Rightarrow> LocalFile list \<Rightarrow> (storage_error option \<times> DB) option"
where
  "InsertLocalFiles flt batchSize db files =
     (if length files = 0 then Some (None, db)
      else if flt = FailBegin then Some (Some ErrBeginTx, db)
      else if flt = FailPrepare then Some (Some ErrPrepare, db)
      else
        (case insertLocalLoop flt batchSize files 0
                \<lparr> tx_rows = local_files db, tx_seq = local_files_seq db, tx_execs = 0 \<rparr> of
           None \<Rightarrow> None
         | Some (Inl err) \<Rightarrow> Some (Some err, db)
         | Some (Inr tx') \<Rightarrow>
             (if flt = FailCommit then Some (Some ErrCommit, db)
              else Some (None, db\<lparr> local_files := tx_rows tx',
                                     local_files_seq := tx_seq tx' \<rparr>))))"

text \<open>
  \<^verbatim>\<open>ClearTorrentFiles\<close> and \<^verbatim>\<open>ClearLocalFiles\<close> run one \<^verbatim>\<open>DELETE FROM\<close> directly
  on the connection (\<^verbatim>\<open>s.db.ExecContext\<close>), outside any transaction: the statement
  commits on its own. It is the operation's statement number 0.
\<close>

definition ClearTorrentFiles :: "fault \<Rightarrow> DB \<Rightarrow> storage_error option \<times> DB" where
  "ClearTorrentFiles flt db =
     (if flt = FailExec 0 then (Some ErrClear, db) else (None, db\<lparr> torrent_files := [] \<rparr>))"

definition ClearLocalFiles :: "fault \<Rightarrow> DB \<Rightarrow> storage_error option \<times> DB" where
  "ClearLocalFiles flt db =
     (if flt = FailExec 0 then (Some ErrClear, db) else (None, db\<lparr> local_files := [] \<rparr>))"

text \<open>
  The refresh of a table as \<^verbatim>\<open>runSync\<close> does it: the clear, then (once the records
  are collected) the insert, each stopping the run on an error (\<^verbatim>\<open>log.Fatalf\<close>). The
  arguments \<open>fltClear\<close> and \<open>fltInsert\<close> are the faults of the two operations.
\<close>

definition syncTorrentFiles ::
  "fault \<Rightarrow> fault \<Rightarrow> int \<Rightarrow> DB \<Rightarrow> TorrentFile list \<Rightarrow> (storage_error option \<times> DB) option"
where
  "syncTorrentFiles fltClear fltInsert batchSize db allFiles =
     (case ClearTorrentFiles fltClear db of
        (Some err, db') \<Rightarrow> Some (Some err, db')
      | (None, db') \<Rightarrow> InsertTorrentFiles fltInsert batchSize db' allFiles)"

definition syncLocalFiles ::
  "fault \<Rightarrow> fault \<Rightarrow> int \<Rightarrow> DB \<Rightarrow> LocalFile list \<Rightarrow> (storage_error option \<times> DB) option"
where
  "syncLocalFiles fltClear fltInsert batchSize db localFiles =
     (case ClearLocalFiles fltClear db of
        (Some err, db') \<Rightarrow> Some (Some err, db')
      | (None, db') \<Rightarrow> InsertLocalFiles fltInsert batchSize db' localFiles)"

section \<open>The store: paginated queries\<close>

text \<open>
  \<^verbatim>\<open>normalizeQueryOptions\<close>, one assignment after the other as in the source.
\<close>

definition normalizeQueryOptions :: "QueryOptions \<Rightarrow> QueryOptions" where
  "normalizeQueryOptions opts0 =
     (let opts1 = (if Page opts0 < 1 then opts0\<lparr>Page := 1\<rparr> else opts0);
          opts2 = (if PerPage opts1 < 1 then opts1\<lparr>PerPage := 100\<rparr> else opts1);
          opts3 = (if PerPage opts2 > 1000 then opts2\<lparr>PerPage := 1000\<rparr> else opts2);
          opts4 = (if Order opts3 \<noteq> ''asc'' \<and> Order opts3 \<noteq> ''desc''
                   then opts3\<lparr>Order := ''asc''\<rparr> else opts3)
      in opts4)"

text \<open>
  SQLite's \<^verbatim>\<open>LIKE\<close> (no \<^verbatim>\<open>ESCAPE\<close>) on UTF-8 text: \<open>%\<close> in the pattern matches
  any run of characters, \<open>_\<close> any one character, and every other byte of the pattern
  the same byte of the text, up to the case of the ASCII letters. A character is what
  SQLite's UTF-8 reader takes in one step: one byte, and, when that byte is \<open>0xC0\<close> or
  above, the continuation bytes (\<open>0x80\<close> to \<open>0xBF\<close>) that follow it.
\<close>

definition asciiLower :: "char \<Rightarrow> char" where
  "asciiLower c =
     (if CHR ''A'' \<le> c \<and> c \<le> CHR ''Z'' then char_of (of_char c + (32 :: nat)) else c)"

definition isContinuation :: "char \<Rightarrow> bool" where
  "isContinuation c = (128 \<le> (of_char c :: nat) \<and> (of_char c :: nat) < 192)"

fun skipChar :: "string \<Rightarrow> string" where
  "skipChar [] = []"
| "skipChar (c # cs) = (if 192 \<le> (of_char c :: nat) then dropWhile isContinuation cs else cs)"

function sql_like :: "string \<Rightarrow> string \<Rightarrow> bool" where
  "sql_like [] txt = (txt = [])"
| "sql_like (p # ps) [] = (p = CHR ''%'' \<and> sql_like ps [])"
| "sql_like (p # ps) (c # cs) =
     (if p = CHR ''%'' then sql_like ps (c # cs) \<or> sql_like (p # ps) (skipChar (c # cs))
      else if p = CHR ''_'' then sql_like ps (skipChar (c # cs))
      else asciiLower p = asciiLower c \<and> sql_like ps cs)"
  by pat_completeness auto
termination
proof (relation "measure (\<lambda>(pat, txt). length pat + length txt)")
  show "wf (measure (\<lambda>(pat, txt). length pat + length txt))" by simp
next
  fix p :: char and ps c cs
  have "length (dropWhile isContinuation cs) \<le> length cs" by (rule length_dropWhile_le)
  then have s: "length (skipChar (c # cs)) < length (c # cs)" by simp
  show "((ps, []), p # ps, []) \<in> measure (\<lambda>(pat, txt). length pat + length txt)" by simp
  show "((ps, c # cs), p # ps, c # cs) \<in> measure (\<lambda>(pat, txt). length pat + length txt)"
    by simp
  show "((p # ps, skipChar (c # cs)), p # ps, c # cs)
      \<in> measure (\<lambda>(pat, txt). length pat + length txt)"
    using s by simp
  show "((ps, skipChar (c # cs)), p # ps, c # cs)
      \<in> measure (\<lambda>(pat, txt). length pat + length txt)"
    using s by simp
  show "((ps, cs), p # ps, c # cs) \<in> measure (\<lambda>(pat, txt). length pat + length txt)"
    by simp
qed

text \<open>
  \<^verbatim>\<open>ORDER BY col dir\<close> on rows that come in table order. SQLite promises no order among
  rows with equal values; the model takes the one its sorter gives: table order for
  \<^verbatim>\<open>ASC\<close> (a stable sort) and the reverse of that result for \<^verbatim>\<open>DESC\<close>, so that
  rows with equal values come in reverse table order there. Text columns compare bytewise
  (the \<^verbatim>\<open>BINARY\<close> collation). A direction other than \<^verbatim>\<open>ASC\<close> or \<^verbatim>\<open>DESC\<close>
  does not parse, and a column the table does not have is an error of the statement.
\<close>

datatype query_error = ErrNoSuchColumn string | ErrSyntax string

definition order_rows :: "('r \<Rightarrow> 'k::linorder) \<Rightarrow> string \<Rightarrow> 'r list \<Rightarrow> query_error + 'r list" where
  "order_rows key dir rows =
     (if dir = ''ASC'' \<or> dir = ''asc'' then Inr (sort_key key rows)
      else if dir = ''DESC'' \<or> dir = ''desc'' then Inr (rev (sort_key key rows))
      else Inl (ErrSyntax dir))"

text \<open>
  \<^verbatim>\<open>LIMIT ? OFFSET ?\<close>: a negative offset counts as 0 and a negative limit as no
  limit.
\<close>

definition sql_limit :: "int \<Rightarrow> int \<Rightarrow> 'r list \<Rightarrow> 'r list" where
  "sql_limit limit offset rows =
     (let rest = drop (nat offset) rows in if limit < 0 then rest else take (nat limit) rest)"

subsection \<open>Torrent files\<close>

definition allowedTorrentColumns :: "(string \<times> string) list" where
  "allowedTorrentColumns =
     [(''torrent_hash'', ''torrent_hash''), (''torrent_name'', ''torrent_name''),
      (''file_name'', ''file_name''), (''file_path'', ''file_path''), (''size'', ''size'')]"

text \<open>The conditions of the \<^verbatim>\<open>WHERE\<close> clause, joined by \<^verbatim>\<open>AND\<close>.\<close>

definition torrentConditions :: "QueryOptions \<Rightarrow> (torrent_files_row \<Rightarrow> bool) list" where
  "torrentConditions opts =
     (if Search opts \<noteq> [] then
        (let searchPattern = ''%'' @ Search opts @ ''%''
         in [\<lambda>r. sql_like searchPattern (t_file_name r) \<or> sql_like searchPattern (t_file_path r)])
      else [])"

text \<open>
  The \<^verbatim>\<open>ORDER BY\<close> clause as a column and a direction: \<^verbatim>\<open>"ORDER BY id ASC"\<close>
  unless the sort name is in the whitelist.
\<close>

definition torrentOrderClause :: "QueryOptions \<Rightarrow> string \<times> string" where
  "torrentOrderClause opts =
     (if Sort opts \<noteq> [] then
        (case map_of allowedTorrentColumns (Sort opts) of
           Some col \<Rightarrow> (col, Order opts)
         | None \<Rightarrow> (''id'', ''ASC''))
      else (''id'', ''ASC''))"

definition torrentOrderBy ::
  "string \<times> string \<Rightarrow> torrent_files_row list \<Rightarrow> query_error + torrent_files_row list"
where
  "torrentOrderBy clause rows =
     (let col = fst clause; dir = snd clause
      in if col = ''id'' then order_rows t_id dir rows
         else if col = ''torrent_hash'' then order_rows t_torrent_hash dir rows
         else if col = ''torrent_name'' then order_rows t_torrent_name dir rows
         else if col = ''file_name'' then order_rows t_file_name dir rows
         else if col = ''file_path'' then order_rows t_file_path dir rows
         else if col = ''relative_path'' then order_rows t_relative_path dir rows
         else if col = ''size'' then order_rows t_size dir rows
         else Inl (ErrNoSuchColumn col))"

definition scanTorrentFile :: "torrent_files_row \<Rightarrow> TorrentFile" where
  "scanTorrentFile r =
     \<lparr> TorrentHash = t_torrent_hash r, TorrentName = t_torrent_name r,
       TorrentFile.FileName = t_file_name r, TorrentFile.FilePath = t_file_path r,
       TorrentFile.Size = t_size r \<rparr>"

text \<open>
  \<^verbatim>\<open>GetTorrentFiles\<close>: the count of the matching rows, then the page. The offset is
  the Go product \<^verbatim>\<open>(opts.Page - 1) * opts.PerPage\<close>, which wraps around.
\<close>

definition GetTorrentFiles :: "DB \<Rightarrow> QueryOptions \<Rightarrow> query_error + (TorrentFile list \<times> int)" where
  "GetTorrentFiles db opts0 =
     (let opts = normalizeQueryOptions opts0;
          matching = filter (\<lambda>r. list_all (\<lambda>c. c r) (torrentConditions opts)) (torrent_files db);
          total' = int (length matching);
          orderClause = torrentOrderClause opts;
          offset = wrap64 ((Page opts - 1) * PerPage opts)
      in case torrentOrderBy orderClause matching of
           Inl err \<Rightarrow> Inl err
         | Inr ordered \<Rightarrow> Inr (map scanTorrentFile (sql_limit (PerPage opts) offset ordered), total'))"

subsection \<open>Local files\<close>

definition allowedLocalColumns :: "(string \<times> string) list" where
  "allowedLocalColumns =
     [(''file_path'', ''file_path''), (''file_name'', ''file_name''),
      (''size'', ''size''), (''category'', ''category'')]"

definition localConditions :: "QueryOptions \<Rightarrow> (local_files_row \<Rightarrow> bool) list" where
  "localConditions opts =
     (if Search opts \<noteq> [] then
        (let searchPattern = ''%'' @ Search opts @ ''%''
         in [\<lambda>r. sql_like searchPattern (l_file_name r) \<or> sql_like searchPattern (l_file_path r)])
      else [])
     @ (if QueryOptions.Category opts \<noteq> [] then [\<lambda>r. l_category r = QueryOptions.Category opts]
        else [])"

definition localOrderClause :: "QueryOptions \<Rightarrow> string \<times> string" where
  "localOrderClause opts =
     (if Sort opts \<noteq> [] then
        (case map_of allowedLocalColumns (Sort opts) of
           Some col \<Rightarrow> (col, Order opts)
         | None \<Rightarrow> (''id'', ''ASC''))
      else (''id'', ''ASC''))"

definition localOrderBy ::
  "string \<times> string \<Rightarrow> local_files_row list \<Rightarrow> query_error + local_files_row list"
where
  "localOrderBy clause rows =
     (let col = fst clause; dir = snd clause
      in if col = ''id'' then order_rows l_id dir rows
         else if col = ''file_path'' then order_rows l_file_path dir rows
         else if col = ''file_name'' then order_rows l_file_name dir rows
         else if col = ''relative_path'' then order_rows l_relative_path dir rows
         else if col = ''size'' then order_rows l_size dir rows
         else if col = ''category'' then order_rows l_category dir rows
         else Inl (ErrNoSuchColumn col))"

definition scanLocalFile :: "local_files_row \<Rightarrow> LocalFile" where
  "scanLocalFile r =
     \<lparr> LocalFile.FilePath = l_file_path r, LocalFile.FileName = l_file_name r,
       LocalFile.Size = l_size r, LocalFile.Category = l_category r \<rparr>"

definition GetLocalFiles :: "DB \<Rightarrow> QueryOptions \<Rightarrow> query_error + (LocalFile list \<times> int)" where
  "GetLocalFiles db opts0 =
     (let opts = normalizeQueryOptions opts0;
          matching = filter (\<lambda>r. list_all (\<lambda>c. c r) (localConditions opts)) (local_files db);
          total' = int (length matching);
          orderClause = localOrderClause opts;
          offset = wrap64 ((Page opts - 1) * PerPage opts)
      in case localOrderBy orderClause matching of
           Inl err \<Rightarrow> Inl err
         | Inr ordered \<Rightarrow> Inr (map scanLocalFile (sql_limit (PerPage opts) offset ordered), total'))"

subsection \<open>Orphan files\<close>

text \<open>
  \<^verbatim>\<open>local_files l LEFT JOIN torrent_files t ON l.relative_path = t.relative_path\<close>: a
  local row is paired with every torrent row of the same relative path, and once with no
  torrent row (all \<open>t\<close> columns \<^verbatim>\<open>NULL\<close>) when there is none.
\<close>

definition leftJoin ::
  "local_files_row list \<Rightarrow> torrent_files_row list
     \<Rightarrow> (local_files_row \<times> torrent_files_row option) list"
where
  "leftJoin ls ts =
     concat (map (\<lambda>l.
       (let ms = filter (\<lambda>t. l_relative_path l = t_relative_path t) ts
        in if ms = [] then [(l, None)] else map (\<lambda>t. (l, Some t)) ms)) ls)"

definition allowedOrphanColumns :: "(string \<times> string) list" where
  "allowedOrphanColumns =
     [(''file_path'', ''l.file_path''), (''file_name'', ''l.file_name''),
      (''size'', ''l.size''), (''category'', ''l.category'')]"

text \<open>
  The first condition is \<^verbatim>\<open>t.relative_path IS NULL\<close>; the column is
  \<^verbatim>\<open>NOT NULL\<close> in the table, so it is \<^verbatim>\<open>NULL\<close> exactly in the pairs without a
  torrent row.
\<close>

definition orphanConditions ::
  "QueryOptions \<Rightarrow> (local_files_row \<times> torrent_files_row option \<Rightarrow> bool) list"
where
  "orphanConditions opts =
     [\<lambda>lt. snd lt = None]
     @ (if Search opts \<noteq> [] then
          (let searchPattern = ''%'' @ Search opts @ ''%''
           in [\<lambda>lt. sql_like searchPattern (l_file_name (fst lt))
                     \<or> sql_like searchPattern (l_file_path (fst lt))])
        else [])
     @ (if QueryOptions.Category opts \<noteq> []
        then [\<lambda>lt. l_category (fst lt) = QueryOptions.Category opts]
        else [])"

text \<open>The default is \<^verbatim>\<open>"ORDER BY l.size DESC"\<close>.\<close>

definition orphanOrderClause :: "QueryOptions \<Rightarrow> string \<times> string" where
  "orphanOrderClause opts =
     (if Sort opts \<noteq> [] then
        (case map_of allowedOrphanColumns (Sort opts) of
           Some col \<Rightarrow> (col, Order opts)
         | None \<Rightarrow> (''l.size'', ''DESC''))
      else (''l.size'', ''DESC''))"

definition orphanOrderBy ::
  "string \<times> string \<Rightarrow> (local_files_row \<times> torrent_files_row option) list
     \<Rightarrow> query_error + (local_files_row \<times> torrent_files_row option) list"
where
  "orphanOrderBy clause rows =
     (let col = fst clause; dir = snd clause
      in if col = ''l.id'' then order_rows (\<lambda>lt. l_id (fst lt)) dir rows
         else if col = ''l.file_path'' then order_rows (\<lambda>lt. l_file_path (fst lt)) dir rows
         else if col = ''l.file_name'' then order_rows (\<lambda>lt. l_file_name (fst lt)) dir rows
         else if col = ''l.relative_path'' then order_rows (\<lambda>lt. l_relative_path (fst lt)) dir rows
         else if col = ''l.size'' then order_rows (\<lambda>lt. l_size (fst lt)) dir rows
         else if col = ''l.category'' then order_rows (\<lambda>lt. l_category (fst lt)) dir rows
         else Inl (ErrNoSuchColumn col))"

definition scanOrphanFile :: "local_files_row \<times> torrent_files_row option \<Rightarrow> OrphanFile" where
  "scanOrphanFile lt =
     \<lparr> OrphanFile.FilePath = l_file_path (fst lt), OrphanFile.FileName = l_file_name (fst lt),
       OrphanFile.Size = l_size (fst lt), OrphanFile.Category = l_category (fst lt) \<rparr>"

definition GetOrphanFiles :: "DB \<Rightarrow> QueryOptions \<Rightarrow> query_error + (OrphanFile list \<times> int)" where
  "GetOrphanFiles db opts0 =
     (let opts = normalizeQueryOptions opts0;
          matching = filter (\<lambda>lt. list_all (\<lambda>c. c lt) (orphanConditions opts))
                       (leftJoin (local_files db) (torrent_files db));
          total' = int (length matching);
          orderClause = orphanOrderClause opts;
          offset = wrap64 ((Page opts - 1) * PerPage opts)
      in case orphanOrderBy orderClause matching of
           Inl err \<Rightarrow> Inl err
         | Inr ordered \<Rightarrow> Inr (map scanOrphanFile (sql_limit (PerPage opts) offset ordered), total'))"

section \<open>The REST handlers' pagination (web package)\<close>

text \<open>
  \<^verbatim>\<open>parseQueryOptions\<close> reads the query parameters of the request;
  \<^verbatim>\<open>r.URL.Query().Get(name)\<close> is the empty string for a parameter that is not given.
\<close>

definition parseQueryOptions :: "(string \<Rightarrow> string) \<Rightarrow> QueryOptions" where
  "parseQueryOptions query =
     (let opts0 = \<lparr> Page = 1, PerPage = 100, Sort = [], Order = ''asc'', Search = [],
                     QueryOptions.Category = [] \<rparr>;
          opts1 = (if query ''page'' \<noteq> [] then
                     (case Atoi (query ''page'') of
                        Some v \<Rightarrow> if v > 0 then opts0\<lparr>Page := v\<rparr> else opts0
                      | None \<Rightarrow> opts0)
                   else opts0);
          opts2 = (if query ''per_page'' \<noteq> [] then
                     (case Atoi (query ''per_page'') of
                        Some v \<Rightarrow> if v > 0 \<and> v \<le> 1000 then opts1\<lparr>PerPage := v\<rparr> else opts1
                      | None \<Rightarrow> opts1)
                   else opts1);
          opts3 = (if query ''sort'' \<noteq> [] then opts2\<lparr>Sort := query ''sort''\<rparr> else opts2);
          opts4 = (if query ''order'' = ''asc'' \<or> query ''order'' = ''desc''
                   then opts3\<lparr>Order := query ''order''\<rparr> else opts3);
          opts5 = (if query ''search'' \<noteq> [] then opts4\<lparr>Search := query ''search''\<rparr> else opts4);
          opts6 = (if query ''category'' \<noteq> []
                   then opts5\<lparr>QueryOptions.Category := query ''category''\<rparr> else opts5)
      in opts6)"

text \<open>
  \<^verbatim>\<open>totalPages\<close>: \<^verbatim>\<open>int((total + int64(perPage) - 1) / int64(perPage))\<close> in 64-bit
  arithmetic; the division panics when \<open>perPage\<close> is 0.
\<close>

datatype go_panic = PanicDivideByZero

definition totalPages :: "int \<Rightarrow> int \<Rightarrow> go_panic + int" where
  "totalPages total' perPage =
     (if perPage = 0 then Inl PanicDivideByZero
      else Inr (wrap64 (quo (wrap64 (wrap64 (total' + perPage) - 1)) perPage)))"

record 'a PaginatedResponse =
  Data :: "'a list"
  Total :: int
  Page :: int
  PerPage :: int
  TotalPages :: int

datatype 'a http_result =
    Status200 "'a PaginatedResponse"
  | Status500 string
  | Panicked go_panic

definition paginated ::
  "string \<Rightarrow> QueryOptions \<Rightarrow> query_error + ('a list \<times> int) \<Rightarrow> 'a http_result" where
  "paginated msg opts res =
     (case res of
        Inl err \<Rightarrow> Status500 msg
      | Inr (files, total') \<Rightarrow>
          (case totalPages total' (QueryOptions.PerPage opts) of
             Inl p \<Rightarrow> Panicked p
           | Inr tp \<Rightarrow>
               Status200 \<lparr> Data = files, Total = total', Page = QueryOptions.Page opts,
                           PerPage = QueryOptions.PerPage opts, TotalPages = tp \<rparr>))"

definition handleTorrentFiles :: "DB \<Rightarrow> (string \<Rightarrow> string) \<Rightarrow> TorrentFile http_result" where
  "handleTorrentFiles db query =
     (let opts = parseQueryOptions query
      in paginated ''Failed to get torrent files'' opts (GetTorrentFiles db opts))"

definition handleLocalFiles :: "DB \<Rightarrow> (string \<Rightarrow> string) \<Rightarrow> LocalFile http_result" where
  "handleLocalFiles db query =
     (let opts = parseQueryOptions query
      in paginated ''Failed to get local files'' opts (GetLocalFiles db opts))"

definition handleOrphanFiles :: "DB \<Rightarrow> (string \<Rightarrow> string) \<Rightarrow> OrphanFile http_result" where
  "handleOrphanFiles db query =
     (let opts = parseQueryOptions query
      in paginated ''Failed to get orphan files'' opts (GetOrphanFiles db opts))"

section \<open>Remote inventory fetch (qbittorrent package): SyncAll\<close>

text \<open>
  \<^verbatim>\<open>SyncAll\<close> lists the torrents and starts one goroutine per torrent (at most
  \<open>maxWorkers\<close> at a time). A goroutine calls \<^verbatim>\<open>GetTorrentFiles\<close>; on an error it
  tries to put the error on the channel \<open>errs\<close>, which has room for one value, without
  waiting (\<^verbatim>\<open>select { case errs <- err: default: }\<close>), and on success it sends the
  files on the channel \<open>files\<close> while it holds the mutex. The caller receives from both
  channels.

  The remote API is a parameter: \<open>listing\<close> is the result of \<^verbatim>\<open>GetTorrents\<close> and
  \<open>fetch hash\<close> the result of \<^verbatim>\<open>GetTorrentFiles\<close> for a hash. The interleaving is a
  parameter too: a schedule is the order in which the goroutines do their work and in
  which the caller takes an error off \<open>errs\<close>. \<open>Run k\<close> is the work of the goroutine of
  the \<open>k\<close>-th torrent: its only effects on shared state are one attempt to send on
  \<open>errs\<close> or the sends of its files under the mutex, so the goroutines' effects are
  ordered as some sequence of whole \<open>Run\<close> steps. \<open>Recv\<close> is one receive of the caller
  on \<open>errs\<close>. The context is not cancelled.
\<close>

datatype api_error = ApiError string

datatype sync_error =
    ErrGetTorrents api_error
  | ErrGetFiles string api_error

datatype event = Run nat | Recv

text \<open>
  The state of a run: the files delivered on \<open>files\<close> so far, the content of the
  buffer of \<open>errs\<close> (capacity 1), and the errors the caller has received so far.
\<close>

record sync_state =
  sent_files :: "TorrentFile list"
  errs_buffer :: "sync_error option"
  received_errs :: "sync_error list"

definition initialSync :: sync_state where
  "initialSync = \<lparr> sent_files = [], errs_buffer = None, received_errs = [] \<rparr>"

text \<open>The body of the function given to \<^verbatim>\<open>g.Go\<close> for torrent \<open>t\<close>.\<close>

definition worker :: "(string \<Rightarrow> api_error + TorrentFile list) \<Rightarrow> Torrent \<Rightarrow> sync_state \<Rightarrow> sync_state" where
  "worker fetch t st =
     (case fetch (Hash t) of
        Inl err \<Rightarrow>
          (if errs_buffer st = None then st\<lparr> errs_buffer := Some (ErrGetFiles (Hash t) err) \<rparr>
           else st)
      | Inr torrentFiles \<Rightarrow> st\<lparr> sent_files := sent_files st @ torrentFiles \<rparr>)"

text \<open>One receive of the caller on \<open>errs\<close>, when a value is there.\<close>

definition receiveErr :: "sync_state \<Rightarrow> sync_state" where
  "receiveErr st =
     (case errs_buffer st of
        None \<Rightarrow> st
      | Some err \<Rightarrow> st\<lparr> errs_buffer := None, received_errs := received_errs st @ [err] \<rparr>)"

definition syncStep ::
  "(string \<Rightarrow> api_error + TorrentFile list) \<Rightarrow> Torrent list \<Rightarrow> event \<Rightarrow> sync_state \<Rightarrow> sync_state"
where
  "syncStep fetch torrents ev st =
     (case ev of
        Run k \<Rightarrow> if k < length torrents then worker fetch (torrents ! k) st else st
      | Recv \<Rightarrow> receiveErr st)"

text \<open>
  \<^verbatim>\<open>SyncAll\<close> under a schedule: when the listing fails, its error goes to \<open>errs\<close>
  and the goroutine returns; otherwise the steps of the schedule run one after the
  other.
\<close>

definition SyncAll ::
  "api_error + Torrent list \<Rightarrow> (string \<Rightarrow> api_error + TorrentFile list) \<Rightarrow> event list \<Rightarrow> sync_state"
where
  "SyncAll listing fetch sched =
     (case listing of
        Inl err \<Rightarrow> initialSync\<lparr> errs_buffer := Some (ErrGetTorrents err) \<rparr>
      | Inr torrents \<Rightarrow> fold (syncStep fetch torrents) sched initialSync)"

text \<open>
  The errors recorded by a run: those the caller has received, and the one still in the
  buffer when both channels are closed (a closed channel still hands out what it holds).
\<close>

definition recordedErrs :: "sync_state \<Rightarrow> sync_error list" where
  "recordedErrs st =
     received_errs st @ (case errs_buffer st of None \<Rightarrow> [] | Some err \<Rightarrow> [err])"

text \<open>
  The goroutines a schedule runs, in order; a schedule is complete for \<open>n\<close> torrents when
  it runs the goroutine of each torrent once.
\<close>

definition runsOf :: "event list \<Rightarrow> nat list" where
  "runsOf sched = concat (map (\<lambda>ev. case ev of Run k \<Rightarrow> [k] | Recv \<Rightarrow> []) sched)"

definition completeSchedule :: "nat \<Rightarrow> event list \<Rightarrow> bool" where
  "completeSchedule n sched = (mset (runsOf sched) = mset [0..<n])"

text \<open>
  The files of the torrents among \<open>ks\<close> whose fetch succeeds, and the errors of those
  whose fetch fails.
\<close>

definition fetchedFiles ::
  "(string \<Rightarrow> api_error + TorrentFile list) \<Rightarrow> Torrent list \<Rightarrow> nat list \<Rightarrow> TorrentFile list"
where
  "fetchedFiles fetch torrents ks =
     concat (map (\<lambda>k. case fetch (Hash (torrents ! k)) of Inl err \<Rightarrow> [] | Inr fs \<Rightarrow> fs) ks)"

definition fetchFailures ::
  "(string \<Rightarrow> api_error + TorrentFile list) \<Rightarrow> Torrent list \<Rightarrow> nat list \<Rightarrow> sync_error list"
where
  "fetchFailures fetch torrents ks =
     concat (map (\<lambda>k. case fetch (Hash (torrents ! k)) of
                         Inl err \<Rightarrow> [ErrGetFiles (Hash (torrents ! k)) err]
                       | Inr fs \<Rightarrow> []) ks)"

section \<open>Invariants of the store\<close>

text \<open>
  What the insert operations establish for every row, stated as predicates on a store:
  the \<open>relative_path\<close> column holds \<open>extractRelativePath\<close> of the stored path; ids grow
  along each table and never exceed the table's sequence; and the stored local paths are
  distinct (the \<^verbatim>\<open>UNIQUE\<close> constraint).
\<close>

definition keys_computed :: "DB \<Rightarrow> bool" where
  "keys_computed db =
     (list_all (\<lambda>r. t_relative_path r = extractRelativePath (t_file_path r)) (torrent_files db)
      \<and> list_all (\<lambda>r. l_relative_path r = extractRelativePath (l_file_path r)) (local_files db))"

definition ids_increasing :: "DB \<Rightarrow> bool" where
  "ids_increasing db =
     (sorted_wrt (<) (map t_id (torrent_files db))
      \<and> list_all (\<lambda>r. t_id r \<le> torrent_files_seq db) (torrent_files db)
      \<and> sorted_wrt (<) (map l_id (local_files db))
      \<and> list_all (\<lambda>r. l_id r \<le> local_files_seq db) (local_files db))"

definition store_inv :: "DB \<Rightarrow> bool" where
  "store_inv db =
     (keys_computed db \<and> ids_increasing db \<and> distinct (map l_file_path (local_files db)))"

text \<open>The same for the rows an open transaction sees.\<close>

definition torrent_tx_inv :: "torrent_files_row tx \<Rightarrow> bool" where
  "torrent_tx_inv tx =
     (list_all (\<lambda>r. t_relative_path r = extractRelativePath (t_file_path r)) (tx_rows tx)
      \<and> sorted_wrt (<) (map t_id (tx_rows tx))
      \<and> list_all (\<lambda>r. t_id r \<le> tx_seq tx) (tx_rows tx))"

definition local_tx_inv :: "local_files_row tx \<Rightarrow> bool" where
  "local_tx_inv tx =
     (list_all (\<lambda>r. l_relative_path r = extractRelativePath (l_file_path r)) (tx_rows tx)
      \<and> sorted_wrt (<) (map l_id (tx_rows tx))
      \<and> list_all (\<lambda>r. l_id r \<le> tx_seq tx) (tx_rows tx)
      \<and> distinct (map l_file_path (tx_rows tx)))"



section \<open>Notions used to state the query properties\<close>

text \<open>
  The rows of a table that satisfy the \<^verbatim>\<open>WHERE\<close> clause of a query, in table order,
  and the window \<^verbatim>\<open>LIMIT perPage OFFSET (page - 1) * perPage\<close> that the three query
  functions cut out of the ordered rows.
\<close>

definition torrentMatching :: "DB \<Rightarrow> QueryOptions \<Rightarrow> torrent_files_row list" where
  "torrentMatching db opts =
     filter (\<lambda>r. list_all (\<lambda>c. c r) (torrentConditions (normalizeQueryOptions opts)))
       (torrent_files db)"

definition localMatching :: "DB \<Rightarrow> QueryOptions \<Rightarrow> local_files_row list" where
  "localMatching db opts =
     filter (\<lambda>r. list_all (\<lambda>c. c r) (localConditions (normalizeQueryOptions opts)))
       (local_files db)"

definition orphanMatching ::
  "DB \<Rightarrow> QueryOptions \<Rightarrow> (local_files_row \<times> torrent_files_row option) list" where
  "orphanMatching db opts =
     filter (\<lambda>r. list_all (\<lambda>c. c r) (orphanConditions (normalizeQueryOptions opts)))
       (leftJoin (local_files db) (torrent_files db))"

definition pageWindow :: "QueryOptions \<Rightarrow> 'r list \<Rightarrow> 'r list" where
  "pageWindow opts rows =
     sql_limit (QueryOptions.PerPage (normalizeQueryOptions opts))
       (wrap64 ((QueryOptions.Page (normalizeQueryOptions opts) - 1)
                * QueryOptions.PerPage (normalizeQueryOptions opts))) rows"

section \<open>A concrete scenario\<close>

text \<open>
  Two local files under the mount point and one remote file, the store after a
  synchronization pass over them (\<open>scenarioDB\<close>), and the store when the local scan has
  found them in the other order.
\<close>

definition scenarioRemote :: "TorrentFile list" where
  "scenarioRemote =
     [\<lparr> TorrentHash = ''h1'', TorrentName = ''A'', TorrentFile.FileName = ''f1.mkv'',
        TorrentFile.FilePath = ''/movies/A/f1.mkv'', TorrentFile.Size = 100 \<rparr>]"

definition scenarioLocal :: "LocalFile list" where
  "scenarioLocal =
     [\<lparr> LocalFile.FilePath = ''/mnt/movies/A/f1.mkv'', LocalFile.FileName = ''f1.mkv'',
        LocalFile.Size = 100, LocalFile.Category = ''movies'' \<rparr>,
      \<lparr> LocalFile.FilePath = ''/mnt/shows/B/f2.mkv'', LocalFile.FileName = ''f2.mkv'',
        LocalFile.Size = 200, LocalFile.Category = ''shows'' \<rparr>]"

definition scenarioDB :: DB where
  "scenarioDB =
     \<lparr> torrent_files =
         [\<lparr> t_id = 1, t_torrent_hash = ''h1'', t_torrent_name = ''A'', t_file_name = ''f1.mkv'',
            t_file_path = ''/movies/A/f1.mkv'', t_relative_path = ''/movies/A/f1.mkv'',
            t_size = 100 \<rparr>],
       local_files =
         [\<lparr> l_id = 1, l_file_path = ''/movies/A/f1.mkv'', l_file_name = ''f1.mkv'',
            l_relative_path = ''/movies/A/f1.mkv'', l_size = 100, l_category = ''movies'' \<rparr>,
          \<lparr> l_id = 2, l_file_path = ''/shows/B/f2.mkv'', l_file_name = ''f2.mkv'',
            l_relative_path = ''/shows/B/f2.mkv'', l_size = 200, l_category = ''shows'' \<rparr>],
       torrent_files_seq = 1,
       local_files_seq = 2 \<rparr>"

text \<open>A store with two orphans, the smaller one inserted first.\<close>

definition twoOrphansDB :: DB where
  "twoOrphansDB =
     \<lparr> torrent_files = [],
       local_files =
         [\<lparr> l_id = 1, l_file_path = ''/movies/A/f1.mkv'', l_file_name = ''f1.mkv'',
            l_relative_path = ''/movies/A/f1.mkv'', l_size = 100, l_category = ''movies'' \<rparr>,
          \<lparr> l_id = 2, l_file_path = ''/shows/B/f2.mkv'', l_file_name = ''f2.mkv'',
            l_relative_path = ''/shows/B/f2.mkv'', l_size = 200, l_category = ''shows'' \<rparr>],
       torrent_files_seq = 0,
       local_files_seq = 2 \<rparr>"

text \<open>
  A request for page \<open>2\<^sup>6\<^sup>2 + 1\<close> with 4 records per page, and a request with a sort
  column that no whitelist has.
\<close>

definition hugePageQuery :: "string \<Rightarrow> string" where
  "hugePageQuery name =
     (if name = ''page'' then ''4611686018427387905''
      else if name = ''per_page'' then ''4'' else [])"


text \<open>
  Five torrents with one file each; the API fails for the third (\<open>fiveFetch\<close>), or for
  the second and the fourth (\<open>twoFailFetch\<close>).
\<close>

definition fiveTorrents :: "Torrent list" where
  "fiveTorrents =
     map (\<lambda>h. \<lparr> Hash = h, Name = h, Torrent.Size = 1, SavePath = ''/movies'' \<rparr>)
       [''h1'', ''h2'', ''h3'', ''h4'', ''h5'']"

definition oneFile :: "string \<Rightarrow> TorrentFile" where
  "oneFile h =
     \<lparr> TorrentHash = h, TorrentName = h, TorrentFile.FileName = ''f.mkv'',
       TorrentFile.FilePath = ''/movies/'' @ h @ ''/f.mkv'', TorrentFile.Size = 1 \<rparr>"

definition fiveFetch :: "string \<Rightarrow> api_error + TorrentFile list" where
  "fiveFetch h = (if h = ''h3'' then Inl (ApiError ''timeout'') else Inr [oneFile h])"

definition twoFailFetch :: "string \<Rightarrow> api_error + TorrentFile list" where
  "twoFailFetch h =
     (if h = ''h2'' \<or> h = ''h4'' then Inl (ApiError ''timeout'') else Inr [oneFile h])"







section \<open>Facts about the string primitives\<close>

lemma HasPrefix_iff_prefix: "HasPrefix s pre = prefix pre s"
  by (auto simp: HasPrefix_def prefix_def min_def) (metis append_eq_conv_conj)

lemma occurs_at_iff_prefix: "occurs_at m p i = (i \<le> length p \<and> prefix m (drop i p))"
proof -
  have "occurs_at m p i = (i \<le> length p \<and> HasPrefix (drop i p) m)"
    by (auto simp: occurs_at_def HasPrefix_def)
  then show ?thesis by (simp add: HasPrefix_iff_prefix)
qed


lemma occurs_at_Cons_0: "occurs_at m (c # cs) 0 = HasPrefix (c # cs) m"
  by (auto simp: occurs_at_def HasPrefix_def)

lemma occurs_at_Cons_Suc: "occurs_at m (c # cs) (Suc k) = occurs_at m cs k"
  by (simp add: occurs_at_def)

lemma occurs_at_Nil: "occurs_at m [] k = (m = [] \<and> k = 0)"
  by (auto simp: occurs_at_def)

lemma occurs_iff: "occurs m p = (\<exists>i. occurs_at m p i)"
proof -
  have "occurs_at m p i \<Longrightarrow> i < Suc (length p)" for i
    by (simp add: occurs_at_def)
  then show ?thesis
    unfolding occurs_def list_ex_iff set_upt by (meson atLeastLessThan_iff le0)
qed

lemma Index_from_none:
  "Index_from i s m = - 1 \<Longrightarrow> \<not> occurs_at m s k"
proof (induction s arbitrary: i k)
  case Nil
  then show ?case by (auto simp: occurs_at_Nil split: if_splits)
next
  case (Cons c cs)
  then show ?case
    by (cases k) (auto simp: occurs_at_Cons_0 occurs_at_Cons_Suc split: if_splits)
qed

lemma Index_from_least:
  "occurs_at m s k \<Longrightarrow> (\<forall>j<k. \<not> occurs_at m s j) \<Longrightarrow> Index_from i s m = int (i + k)"
proof (induction s arbitrary: i k)
  case Nil
  then show ?case by (auto simp: occurs_at_Nil)
next
  case (Cons c cs)
  show ?case
  proof (cases k)
    case 0
    with Cons.prems show ?thesis by (simp add: occurs_at_Cons_0)
  next
    case (Suc k')
    with Cons.prems have a: "occurs_at m cs k'" and b: "\<forall>j<k'. \<not> occurs_at m cs j"
      and c: "\<not> HasPrefix (c # cs) m"
      using occurs_at_Cons_Suc occurs_at_Cons_0 by auto
    from Cons.IH [OF a b, of "Suc i"] c Suc show ?thesis by simp
  qed
qed

lemma occurs_at_least:
  "occurs_at m s k \<Longrightarrow> \<exists>k0\<le>k. occurs_at m s k0 \<and> (\<forall>j<k0. \<not> occurs_at m s j)"
proof (induction k rule: less_induct)
  case (less k)
  show ?case
  proof (cases "\<exists>j<k. occurs_at m s j")
    case True
    then obtain j where "j < k" "occurs_at m s j" by blast
    with less.IH [of j] show ?thesis by (meson le_trans less_imp_le)
  next
    case False
    with less.prems show ?thesis by blast
  qed
qed

lemma Index_least:
  "occurs_at m s k \<Longrightarrow> (\<forall>j<k. \<not> occurs_at m s j) \<Longrightarrow> Index s m = int k"
  using Index_from_least [of m s k 0] by (simp add: Index_def)

lemma Index_none_iff: "(Index s m = - 1) = (\<not> occurs m s)"
proof
  assume "Index s m = - 1"
  then show "\<not> occurs m s" by (auto simp: Index_def occurs_iff dest: Index_from_none)
next
  assume a: "\<not> occurs m s"
  show "Index s m = - 1"
  proof (rule ccontr)
    assume b: "Index s m \<noteq> - 1"
    have "\<forall>k. \<not> occurs_at m s k \<Longrightarrow> Index_from i s m = - 1" for i
    proof (induction s arbitrary: i)
      case Nil
      then show ?case by (auto simp: occurs_at_Nil)
    next
      case (Cons c cs)
      from Cons.prems have "\<not> HasPrefix (c # cs) m" using occurs_at_Cons_0 by blast
      moreover from Cons.prems have "\<forall>k. \<not> occurs_at m cs k" using occurs_at_Cons_Suc by blast
      ultimately show ?case using Cons.IH by simp
    qed
    with a b show False by (simp add: Index_def occurs_iff)
  qed
qed

lemma Index_found:
  assumes "Index s m \<noteq> - 1"
  obtains k where "Index s m = int k" "occurs_at m s k" "\<forall>j<k. \<not> occurs_at m s j"
proof -
  from assms obtain k' where "occurs_at m s k'" using Index_none_iff occurs_iff by blast
  then obtain k where "occurs_at m s k" "\<forall>j<k. \<not> occurs_at m s j"
    using occurs_at_least by blast
  then show ?thesis using that Index_least by blast
qed

lemma Index_eq_nat:
  "Index s m = int k \<Longrightarrow> occurs_at m s k \<and> (\<forall>j<k. \<not> occurs_at m s j)"
proof -
  assume a: "Index s m = int k"
  then have "Index s m \<noteq> - 1" by simp
  then obtain k' where "Index s m = int k'" "occurs_at m s k'" "\<forall>j<k'. \<not> occurs_at m s j"
    by (rule Index_found)
  with a show ?thesis by simp
qed

lemma Contains_iff_occurs: "Contains s m = occurs m s"
proof (cases "Index s m = - 1")
  case True
  then have "\<not> occurs m s" using Index_none_iff by blast
  with True show ?thesis by (simp add: Contains_def)
next
  case False
  then have "occurs m s" using Index_none_iff by blast
  moreover from False obtain k where "Index s m = int k" by (rule Index_found)
  ultimately show ?thesis by (simp add: Contains_def)
qed

lemma occurs_at_drop:
  "k \<le> length p \<Longrightarrow> occurs_at m (drop k p) j \<Longrightarrow> occurs_at m p (k + j)"
  by (auto simp: occurs_at_def add.commute)

lemma occurs_drop: "occurs m (drop k p) \<Longrightarrow> occurs m p"
proof -
  assume a: "occurs m (drop k p)"
  have "drop k p = drop (min k (length p)) p" by (simp add: min_def)
  with a obtain j where "occurs_at m (drop (min k (length p)) p) j"
    using occurs_iff by metis
  then have "occurs_at m p (min k (length p) + j)" by (intro occurs_at_drop) auto
  then show ?thesis using occurs_iff by blast
qed

lemma occurs_at_drop_0: "occurs_at m p k \<Longrightarrow> occurs_at m (drop k p) 0"
  by (auto simp: occurs_at_def)

section \<open>Facts about the path normalizer\<close>

lemma extractLoop_suffix: "\<exists>k\<le>length p. extractLoop ms p = drop k p"
proof (induction ms)
  case Nil
  show ?case by (rule exI [of _ 0]) simp
next
  case (Cons m ms)
  show ?case
  proof (cases "Index p m = - 1")
    case True
    with Cons show ?thesis by simp
  next
    case False
    then obtain k where k: "Index p m = int k" "occurs_at m p k" by (rule Index_found)
    then have "k \<le> length p" by (simp add: occurs_at_def)
    with k False show ?thesis by (auto simp: Let_def)
  qed
qed

lemma extractLoop_none: "\<forall>m\<in>set ms. \<not> occurs m p \<Longrightarrow> extractLoop ms p = p"
  by (induction ms) (auto simp: Index_none_iff Let_def)

lemma extractLoop_idem: "extractLoop ms (extractLoop ms p) = extractLoop ms p"
proof (induction ms arbitrary: p)
  case Nil
  show ?case by simp
next
  case (Cons m ms)
  show ?case
  proof (cases "Index p m = - 1")
    case True
    then have e: "extractLoop (m # ms) p = extractLoop ms p" by simp
    obtain k where "extractLoop ms p = drop k p" using extractLoop_suffix by blast
    with True have "Index (extractLoop ms p) m = - 1"
      using occurs_drop Index_none_iff by metis
    then show ?thesis using e Cons.IH by simp
  next
    case False
    then obtain k where k: "Index p m = int k" "occurs_at m p k" by (rule Index_found)
    then have e: "extractLoop (m # ms) p = drop k p" by simp
    from k have "occurs_at m (drop k p) 0" by (simp add: occurs_at_drop_0)
    then have "Index (drop k p) m = int 0" by (intro Index_least) auto
    then show ?thesis using e by simp
  qed
qed

lemma extractLoop_found:
  "\<exists>m\<in>set ms. occurs m p \<Longrightarrow> \<exists>m\<in>set ms. HasPrefix (extractLoop ms p) m"
proof (induction ms)
  case Nil
  then show ?case by simp
next
  case (Cons m ms)
  show ?case
  proof (cases "Index p m = - 1")
    case True
    with Cons show ?thesis by (auto simp: Index_none_iff)
  next
    case False
    then obtain k where k: "Index p m = int k" "occurs_at m p k" by (rule Index_found)
    then have "occurs_at m (drop k p) 0" by (simp add: occurs_at_drop_0)
    then have "HasPrefix (drop k p) m" by (cases "drop k p") (auto simp: occurs_at_Cons_0 occurs_at_Nil HasPrefix_def)
    with k show ?thesis by simp
  qed
qed

lemma extractRelativePath_idem: "extractRelativePath (extractRelativePath p) = extractRelativePath p"
  by (simp add: extractRelativePath_def extractLoop_idem)

lemma extractRelativePath_length: "length (extractRelativePath p) \<le> length p"
  using extractLoop_suffix [of p markers] by (auto simp: extractRelativePath_def)

lemma marker_not_mnt: "m \<in> set markers \<Longrightarrow> HasPrefix k m \<Longrightarrow> \<not> HasPrefix k ''/mnt''"
proof
  assume a: "m \<in> set markers" "HasPrefix k m" "HasPrefix k ''/mnt''"
  then have "prefix m k" "prefix ''/mnt'' k" by (simp_all add: HasPrefix_iff_prefix)
  then have "prefix m ''/mnt'' \<or> prefix ''/mnt'' m" by (rule prefix_same_cases)
  with a(1) show False by (auto simp: markers_def)
qed

lemma normalizedKey_idem_iff:
  "(normalizedKey (normalizedKey p) = normalizedKey p) = (\<not> HasPrefix (normalizedKey p) ''/mnt'')"
proof (cases "HasPrefix (normalizedKey p) ''/mnt''")
  case True
  then have "4 \<le> length (normalizedKey p)" by (simp add: HasPrefix_def)
  moreover have "length (normalizedKey (normalizedKey p)) \<le> length (drop 4 (normalizedKey p))"
    using True extractRelativePath_length [of "drop 4 (normalizedKey p)"]
    by (simp add: normalizedKey_def [of "normalizedKey p"] normalizeLocalPath_def)
  ultimately have "length (normalizedKey (normalizedKey p)) < length (normalizedKey p)" by simp
  with True show ?thesis by auto
next
  case False
  then have "normalizedKey (normalizedKey p) = extractRelativePath (normalizedKey p)"
    by (simp add: normalizedKey_def [of "normalizedKey p"] normalizeLocalPath_def)
  also have "\<dots> = normalizedKey p" by (simp add: normalizedKey_def extractRelativePath_idem)
  finally show ?thesis using False by simp
qed


text \<open>
  Claim C2, as the code has it. The markers are tried in the fixed order \<open>/movies/\<close>,
  \<open>/shows/\<close>, \<open>/4k/\<close>: the key starts at the first occurrence of the first marker of
  that order that occurs in the path, whatever the positions of the other markers; a
  path in which no marker occurs is its own key.
\<close>

theorem extractRelativePath_marker_priority:
  "(\<not> occurs ''/movies/'' p \<and> \<not> occurs ''/shows/'' p \<and> \<not> occurs ''/4k/'' p
      \<longrightarrow> extractRelativePath p = p)
   \<and> (\<forall>i. occurs_at ''/movies/'' p i \<and> (\<forall>j<i. \<not> occurs_at ''/movies/'' p j)
      \<longrightarrow> extractRelativePath p = drop i p)
   \<and> (\<forall>i. \<not> occurs ''/movies/'' p
        \<and> occurs_at ''/shows/'' p i \<and> (\<forall>j<i. \<not> occurs_at ''/shows/'' p j)
      \<longrightarrow> extractRelativePath p = drop i p)
   \<and> (\<forall>i. \<not> occurs ''/movies/'' p \<and> \<not> occurs ''/shows/'' p
        \<and> occurs_at ''/4k/'' p i \<and> (\<forall>j<i. \<not> occurs_at ''/4k/'' p j)
      \<longrightarrow> extractRelativePath p = drop i p)"
proof (intro conjI allI impI)
  assume "\<not> occurs ''/movies/'' p \<and> \<not> occurs ''/shows/'' p \<and> \<not> occurs ''/4k/'' p"
  then show "extractRelativePath p = p"
    by (simp add: extractRelativePath_def markers_def Index_none_iff)
next
  fix i
  assume "occurs_at ''/movies/'' p i \<and> (\<forall>j<i. \<not> occurs_at ''/movies/'' p j)"
  then have "Index p ''/movies/'' = int i" by (simp add: Index_least)
  then show "extractRelativePath p = drop i p"
    by (simp add: extractRelativePath_def markers_def)
next
  fix i
  assume a: "\<not> occurs ''/movies/'' p
        \<and> occurs_at ''/shows/'' p i \<and> (\<forall>j<i. \<not> occurs_at ''/shows/'' p j)"
  then have "Index p ''/movies/'' = - 1" by (simp add: Index_none_iff)
  moreover from a have "Index p ''/shows/'' = int i" by (simp add: Index_least)
  ultimately show "extractRelativePath p = drop i p"
    by (simp add: extractRelativePath_def markers_def)
next
  fix i
  assume a: "\<not> occurs ''/movies/'' p \<and> \<not> occurs ''/shows/'' p
        \<and> occurs_at ''/4k/'' p i \<and> (\<forall>j<i. \<not> occurs_at ''/4k/'' p j)"
  then have "Index p ''/movies/'' = - 1" "Index p ''/shows/'' = - 1"
    by (simp_all add: Index_none_iff)
  moreover from a have "Index p ''/4k/'' = int i" by (simp add: Index_least)
  ultimately show "extractRelativePath p = drop i p"
    by (simp add: extractRelativePath_def markers_def)
qed

lemma Index_eval_none: "Index s m = - 1 \<Longrightarrow> \<not> occurs m s"
  by (simp add: Index_none_iff)

text \<open>
  Witness for C2: one path for each of the four cases. In the second path \<open>/4k/\<close>
  stands at index 5 and \<open>/movies/\<close> at index 8, and the key starts at index 8.
\<close>

theorem extractRelativePath_marker_priority_witness:
  "extractRelativePath ''/data/x/f.mkv'' = ''/data/x/f.mkv''
   \<and> occurs_at ''/4k/'' ''/data/4k/movies/X/f.mkv'' 5
   \<and> occurs_at ''/movies/'' ''/data/4k/movies/X/f.mkv'' 8
   \<and> extractRelativePath ''/data/4k/movies/X/f.mkv'' = ''/movies/X/f.mkv''
   \<and> extractRelativePath ''/srv/4k/shows/S/e.mkv'' = ''/shows/S/e.mkv''
   \<and> extractRelativePath ''/srv/4k/F/f.mkv'' = ''/4k/F/f.mkv''"
proof -
  have n1: "Index ''/data/x/f.mkv'' ''/movies/'' = - 1" "Index ''/data/x/f.mkv'' ''/shows/'' = - 1"
    "Index ''/data/x/f.mkv'' ''/4k/'' = - 1"
    by (simp_all add: Index_def HasPrefix_def)
  have i2: "Index ''/data/4k/movies/X/f.mkv'' ''/movies/'' = int 8"
    and i2': "Index ''/data/4k/movies/X/f.mkv'' ''/4k/'' = int 5"
    by (simp_all add: Index_def HasPrefix_def)
  have i3: "Index ''/srv/4k/shows/S/e.mkv'' ''/movies/'' = - 1"
    "Index ''/srv/4k/shows/S/e.mkv'' ''/shows/'' = int 7"
    by (simp_all add: Index_def HasPrefix_def)
  have i4: "Index ''/srv/4k/F/f.mkv'' ''/movies/'' = - 1"
    "Index ''/srv/4k/F/f.mkv'' ''/shows/'' = - 1" "Index ''/srv/4k/F/f.mkv'' ''/4k/'' = int 4"
    by (simp_all add: Index_def HasPrefix_def)
  have "extractRelativePath ''/data/x/f.mkv'' = ''/data/x/f.mkv''"
    using extractRelativePath_marker_priority [of "''/data/x/f.mkv''"] n1 [THEN Index_eval_none]
    by blast
  moreover have "extractRelativePath ''/data/4k/movies/X/f.mkv'' = drop 8 ''/data/4k/movies/X/f.mkv''"
    using extractRelativePath_marker_priority [of "''/data/4k/movies/X/f.mkv''"]
      Index_eq_nat [OF i2] by blast
  moreover have "extractRelativePath ''/srv/4k/shows/S/e.mkv'' = drop 7 ''/srv/4k/shows/S/e.mkv''"
    using extractRelativePath_marker_priority [of "''/srv/4k/shows/S/e.mkv''"]
      Index_eq_nat [OF i3(2)] i3(1) [THEN Index_eval_none] by blast
  moreover have "extractRelativePath ''/srv/4k/F/f.mkv'' = drop 4 ''/srv/4k/F/f.mkv''"
    using extractRelativePath_marker_priority [of "''/srv/4k/F/f.mkv''"]
      Index_eq_nat [OF i4(3)] i4(1,2) [THEN Index_eval_none] by blast
  ultimately show ?thesis using Index_eq_nat [OF i2] Index_eq_nat [OF i2'] by simp
qed

text \<open>
  Counterexample for C2 as stated: in \<open>/data/4k/movies/X/f.mkv\<close> the smallest index at
  which a marker occurs is 5 (\<open>/4k/\<close>), but the key computed by the code starts at
  index 8 (\<open>/movies/\<close>).
\<close>

theorem extractRelativePath_not_earliest_counterexample:
  "Index ''/data/4k/movies/X/f.mkv'' ''/4k/'' = 5
   \<and> Index ''/data/4k/movies/X/f.mkv'' ''/movies/'' = 8
   \<and> earliestMarkerIndex ''/data/4k/movies/X/f.mkv'' = 5
   \<and> earliestMarkerKey ''/data/4k/movies/X/f.mkv'' = ''/4k/movies/X/f.mkv''
   \<and> extractRelativePath ''/data/4k/movies/X/f.mkv'' = ''/movies/X/f.mkv''
   \<and> extractRelativePath ''/data/4k/movies/X/f.mkv'' \<noteq> earliestMarkerKey ''/data/4k/movies/X/f.mkv''"
  by (simp add: extractRelativePath_def earliestMarkerKey_def earliestMarkerIndex_def
      markers_def Index_def HasPrefix_def)

lemma categorizeLoop_find:
  "categorizeLoop cs np =
     (case find (\<lambda>c. occurs (''/'' @ c @ ''/'') np) cs of None \<Rightarrow> ''unknown'' | Some c \<Rightarrow> c)"
  by (induction cs) (simp_all add: Contains_iff_occurs)

text \<open>
  Claim C5. The category of a path is the first configured label (in the configured
  order, which for \<open>NewScanner\<close> is \<open>4k\<close>, \<open>movies\<close>, \<open>shows\<close>) whose form wrapped
  in separators occurs anywhere in the slash-normalized path, wherever the markers stand
  in the path; when no wrapped label occurs the category is \<open>unknown\<close>.
\<close>

theorem categorize_first_configured:
  "categorize sep s path =
     (case find (\<lambda>c. occurs (''/'' @ c @ ''/'') (ToSlash sep path)) (categories s) of
        None \<Rightarrow> ''unknown'' | Some c \<Rightarrow> c)
   \<and> categorize sep (NewScanner bp) path =
     (if occurs ''/4k/'' (ToSlash sep path) then ''4k''
      else if occurs ''/movies/'' (ToSlash sep path) then ''movies''
      else if occurs ''/shows/'' (ToSlash sep path) then ''shows''
      else ''unknown'')"
  by (simp add: categorize_def categorizeLoop_find NewScanner_def)

text \<open>
  Counterexample for C4 as stated: the key of \<open>/mnt/mnt/x\<close> is \<open>/mnt/x\<close>, whose key
  is \<open>/x\<close>: the prefix is stripped once per application, so a second application strips
  again.
\<close>

theorem normalizedKey_idempotent_counterexample:
  "normalizedKey ''/mnt/mnt/x'' = ''/mnt/x''
   \<and> normalizedKey (normalizedKey ''/mnt/mnt/x'') = ''/x''
   \<and> normalizedKey (normalizedKey ''/mnt/mnt/x'') \<noteq> normalizedKey ''/mnt/mnt/x''"
  by (simp add: normalizedKey_def normalizeLocalPath_def extractRelativePath_def
      markers_def Index_def HasPrefix_def)

lemma normalizedKey_mnt_append: "normalizedKey (''/mnt'' @ p) = extractRelativePath p"
  by (simp add: normalizedKey_def normalizeLocalPath_def HasPrefix_def)

text \<open>
  Claim C4, as the code has it. A second application of \<open>normalizedKey\<close> changes
  nothing exactly when the key does not itself start with \<open>/mnt\<close>; this is the case
  whenever a marker occurs in the stripped path, and whenever the path does not start
  with \<open>/mnt\<close>. For a path that does not start with \<open>/mnt\<close>, putting \<open>/mnt\<close> in front
  does not change the key.
\<close>

theorem normalizedKey_idempotent_unless_mnt:
  "((normalizedKey (normalizedKey p) = normalizedKey p) = (\<not> HasPrefix (normalizedKey p) ''/mnt''))
   \<and> ((\<exists>m\<in>set markers. occurs m (normalizeLocalPath p))
        \<longrightarrow> normalizedKey (normalizedKey p) = normalizedKey p)
   \<and> (\<not> HasPrefix p ''/mnt'' \<longrightarrow> normalizedKey (normalizedKey p) = normalizedKey p)
   \<and> (\<not> HasPrefix p ''/mnt'' \<longrightarrow> normalizedKey (''/mnt'' @ p) = normalizedKey p)
   \<and> normalizedKey ''/mnt/movies/X/f.mkv'' = normalizedKey ''/movies/X/f.mkv''"
proof (intro conjI impI)
  show "(normalizedKey (normalizedKey p) = normalizedKey p) = (\<not> HasPrefix (normalizedKey p) ''/mnt'')"
    by (rule normalizedKey_idem_iff)
next
  assume "\<exists>m\<in>set markers. occurs m (normalizeLocalPath p)"
  then have "\<exists>m\<in>set markers. HasPrefix (normalizedKey p) m"
    unfolding normalizedKey_def extractRelativePath_def by (rule extractLoop_found)
  then have "\<not> HasPrefix (normalizedKey p) ''/mnt''" using marker_not_mnt by blast
  then show "normalizedKey (normalizedKey p) = normalizedKey p"
    by (simp add: normalizedKey_idem_iff)
next
  assume a: "\<not> HasPrefix p ''/mnt''"
  show "normalizedKey (normalizedKey p) = normalizedKey p"
  proof (cases "\<exists>m\<in>set markers. occurs m (normalizeLocalPath p)")
    case True
    then have "\<exists>m\<in>set markers. HasPrefix (normalizedKey p) m"
      unfolding normalizedKey_def extractRelativePath_def by (rule extractLoop_found)
    then have "\<not> HasPrefix (normalizedKey p) ''/mnt''" using marker_not_mnt by blast
    then show ?thesis by (simp add: normalizedKey_idem_iff)
  next
    case False
    then have "normalizedKey p = p" using a
      by (simp add: normalizedKey_def extractRelativePath_def normalizeLocalPath_def extractLoop_none)
    then show ?thesis by simp
  qed
next
  assume "\<not> HasPrefix p ''/mnt''"
  then show "normalizedKey (''/mnt'' @ p) = normalizedKey p"
    using normalizedKey_mnt_append [of p]
    by (simp add: normalizedKey_def [of p] normalizeLocalPath_def)
next
  show "normalizedKey ''/mnt/movies/X/f.mkv'' = normalizedKey ''/movies/X/f.mkv''"
    by (simp add: normalizedKey_def normalizeLocalPath_def HasPrefix_def)
qed

text \<open>
  Witness for C4 at \<open>/mnt/movies/X/f.mkv\<close> and \<open>/srv/x/f.mkv\<close>.
\<close>

theorem normalizedKey_idempotent_unless_mnt_witness:
  "occurs ''/movies/'' (normalizeLocalPath ''/mnt/movies/X/f.mkv'')
   \<and> normalizedKey (normalizedKey ''/mnt/movies/X/f.mkv'') = normalizedKey ''/mnt/movies/X/f.mkv''
   \<and> \<not> HasPrefix ''/srv/x/f.mkv'' ''/mnt''
   \<and> normalizedKey (normalizedKey ''/srv/x/f.mkv'') = normalizedKey ''/srv/x/f.mkv''
   \<and> normalizedKey (''/mnt'' @ ''/srv/x/f.mkv'') = normalizedKey ''/srv/x/f.mkv''"
proof -
  have a: "occurs ''/movies/'' (normalizeLocalPath ''/mnt/movies/X/f.mkv'')"
    by (simp add: occurs_def occurs_at_def normalizeLocalPath_def HasPrefix_def)
  then have a': "\<exists>m\<in>set markers. occurs m (normalizeLocalPath ''/mnt/movies/X/f.mkv'')"
    by (simp add: markers_def)
  have b: "\<not> HasPrefix ''/srv/x/f.mkv'' ''/mnt''" by (simp add: HasPrefix_def)
  show ?thesis
    using normalizedKey_idempotent_unless_mnt [of "''/mnt/movies/X/f.mkv''"]
      normalizedKey_idempotent_unless_mnt [of "''/srv/x/f.mkv''"] a a' b
    by blast
qed
section \<open>Configuration validation and client construction\<close>

lemma Validate_None_iff:
  "(Validate c = None) =
     (isValidPort (LocalPort c) \<and> isValidPort (QBittorrentPort c) \<and> SQLitePath c \<noteq> []
      \<and> LocalPath c \<noteq> [] \<and> 1 \<le> QBittorrentMaxWorkers c \<and> 1 \<le> SQLiteBatchSize c)"
  by (auto simp: Validate_def)

lemma Load_Inr_valid: "Load file getenv = Inr cfg \<Longrightarrow> Validate cfg = None"
  by (auto simp: Load_def Let_def split: config_file.splits option.splits)

text \<open>
  Claim C9, as the code has it. \<open>Validate\<close> returns an error for every configuration
  whose worker count or batch size is below 1, and \<open>Load\<close> never returns such a
  configuration. A worker count or batch size of 0 in the configuration file counts as
  not set, so the value already there stays; and \<open>NewClient\<close> replaces a worker count
  that is not positive by 10 and succeeds.
\<close>

theorem Validate_rejects_nonpositive:
  "(QBittorrentMaxWorkers c < 1 \<or> SQLiteBatchSize c < 1 \<longrightarrow> (\<exists>err. Validate c = Some err))
   \<and> (Load cfile getenv = Inr cfg \<longrightarrow> 1 \<le> QBittorrentMaxWorkers cfg \<and> 1 \<le> SQLiteBatchSize cfg)
   \<and> (QBittorrentMaxWorkers fileCfg = 0
        \<longrightarrow> QBittorrentMaxWorkers (loadFromFile fileCfg c0) = QBittorrentMaxWorkers c0)
   \<and> (SQLiteBatchSize fileCfg = 0
        \<longrightarrow> SQLiteBatchSize (loadFromFile fileCfg c0) = SQLiteBatchSize c0)
   \<and> (host \<noteq> [] \<and> w \<le> 0
        \<longrightarrow> (\<exists>cl. NewClient host username password w = Inr cl \<and> maxWorkers cl = 10))"
proof (intro conjI impI)
  assume "QBittorrentMaxWorkers c < 1 \<or> SQLiteBatchSize c < 1"
  then have "Validate c \<noteq> None" by (auto simp: Validate_None_iff)
  then show "\<exists>err. Validate c = Some err" by auto
next
  assume "Load cfile getenv = Inr cfg"
  then have "Validate cfg = None" by (rule Load_Inr_valid)
  then show "1 \<le> QBittorrentMaxWorkers cfg" "1 \<le> SQLiteBatchSize cfg"
    by (simp_all add: Validate_None_iff)
next
  assume "QBittorrentMaxWorkers fileCfg = 0"
  then show "QBittorrentMaxWorkers (loadFromFile fileCfg c0) = QBittorrentMaxWorkers c0"
    by (simp add: loadFromFile_def)
next
  assume "SQLiteBatchSize fileCfg = 0"
  then show "SQLiteBatchSize (loadFromFile fileCfg c0) = SQLiteBatchSize c0"
    by (simp add: loadFromFile_def)
next
  assume "host \<noteq> [] \<and> w \<le> 0"
  then show "\<exists>cl. NewClient host username password w = Inr cl \<and> maxWorkers cl = 10"
    by (simp add: NewClient_def)
qed

text \<open>
  Witness for C9: the default configuration with \<open>-1\<close> workers is rejected; the default
  configuration loads; a file that says 0 workers and batch size 0 leaves the defaults 10 and 1000; \<open>NewClient\<close>
  with \<open>-3\<close> workers yields a client with 10.
\<close>

theorem Validate_rejects_nonpositive_witness:
  "Validate (defaultConfig\<lparr>QBittorrentMaxWorkers := - 1\<rparr>)
     = Some (ErrMustBeAtLeast1 ''QBITTORRENT_MAX_WORKERS'' (- 1))
   \<and> Load NoFile (\<lambda>k. []) = Inr defaultConfig
   \<and> QBittorrentMaxWorkers
       (loadFromFile (defaultConfig\<lparr>QBittorrentMaxWorkers := 0, SQLiteBatchSize := 0\<rparr>)
          defaultConfig) = 10
   \<and> SQLiteBatchSize
       (loadFromFile (defaultConfig\<lparr>QBittorrentMaxWorkers := 0, SQLiteBatchSize := 0\<rparr>)
          defaultConfig) = 1000
   \<and> (\<exists>cl. NewClient ''http://qbt.home'' ''admin'' ''adminadmin'' (- 3) = Inr cl \<and> maxWorkers cl = 10)"
proof -
  have a: "QBittorrentMaxWorkers (defaultConfig\<lparr>QBittorrentMaxWorkers := - 1\<rparr>) < 1" by simp
  have b: "Load NoFile (\<lambda>k. []) = Inr defaultConfig"
    by (simp add: Load_def loadFromEnv_def envString_def envInt_def Validate_def
        isValidPort_def defaultConfig_def)
  have c: "QBittorrentMaxWorkers (defaultConfig\<lparr>QBittorrentMaxWorkers := 0, SQLiteBatchSize := 0\<rparr>) = 0"
    "SQLiteBatchSize (defaultConfig\<lparr>QBittorrentMaxWorkers := 0, SQLiteBatchSize := 0\<rparr>) = 0"
    by simp_all
  have d: "QBittorrentMaxWorkers defaultConfig = 10" "SQLiteBatchSize defaultConfig = 1000"
    by (simp_all add: defaultConfig_def)
  have e: "''http://qbt.home'' \<noteq> [] \<and> (- 3 :: int) \<le> 0" by simp
  have v: "Validate (defaultConfig\<lparr>QBittorrentMaxWorkers := - 1\<rparr>)
     = Some (ErrMustBeAtLeast1 ''QBITTORRENT_MAX_WORKERS'' (- 1))"
    by (simp add: Validate_def isValidPort_def defaultConfig_def)
  show ?thesis
    using Validate_rejects_nonpositive [where c = "defaultConfig\<lparr>QBittorrentMaxWorkers := - 1\<rparr>"
        and cfile = NoFile and getenv = "\<lambda>k. []" and cfg = defaultConfig
        and fileCfg = "defaultConfig\<lparr>QBittorrentMaxWorkers := 0, SQLiteBatchSize := 0\<rparr>"
        and c0 = defaultConfig and host = "''http://qbt.home''" and w = "- 3"
        and username = "''admin''" and password = "''adminadmin''"]
      a b c d e v
    by simp
qed

text \<open>
  Counterexample for C9 as stated: constructing the client with 0 workers does not
  fail, the client gets 10 workers; and a configuration file that sets 0 workers loads
  without an error, as the default configuration.
\<close>

theorem NewClient_substitutes_default_counterexample:
  "NewClient ''http://qbt.home'' ''admin'' ''adminadmin'' 0
     = Inr \<lparr> client = \<lparr> Host = ''http://qbt.home'', Username = ''admin'',
                          Password = ''adminadmin'', Timeout = 30 \<rparr>,
               maxWorkers = 10 \<rparr>
   \<and> Load (File (defaultConfig\<lparr>QBittorrentMaxWorkers := 0\<rparr>)) (\<lambda>k. []) = Inr defaultConfig"
  by (simp add: NewClient_def Load_def loadFromFile_def loadFromEnv_def envString_def
      envInt_def Validate_def isValidPort_def defaultConfig_def)

section \<open>The batched insert loops\<close>

lemma insertTorrentBatch_append:
  "insertTorrentBatch flt (xs @ ys) tx =
     (case insertTorrentBatch flt xs tx of Inl err \<Rightarrow> Inl err
      | Inr tx' \<Rightarrow> insertTorrentBatch flt ys tx')"
  by (induction xs arbitrary: tx) (auto simp: Let_def split: sum.splits)

lemma insertLocalBatch_append:
  "insertLocalBatch flt (xs @ ys) tx =
     (case insertLocalBatch flt xs tx of Inl err \<Rightarrow> Inl err
      | Inr tx' \<Rightarrow> insertLocalBatch flt ys tx')"
  by (induction xs arbitrary: tx) (auto simp: Let_def split: sum.splits)

lemma slice_drop:
  assumes "0 \<le> i" "i \<le> j"
  shows "slice xs i j @ drop (nat j) xs = drop (nat i) xs"
proof -
  have "nat j = nat (j - i) + nat i" using assms by simp
  then have "drop (nat j) xs = drop (nat (j - i)) (drop (nat i) xs)"
    by (simp only: drop_drop)
  then show ?thesis by (simp only: slice_def append_take_drop_id)
qed

lemma insertTorrentLoop_batches:
  assumes bs: "1 \<le> batchSize"
  shows "0 \<le> i \<Longrightarrow>
    insertTorrentLoop flt batchSize files i tx = Some (insertTorrentBatch flt (drop (nat i) files) tx)"
proof (induction "length files - nat i" arbitrary: i tx rule: less_induct)
  case less
  show ?case
  proof (cases "i < int (length files)")
    case False
    then show ?thesis using less.prems by (subst insertTorrentLoop.simps) simp
  next
    case True
    define end1 where "end1 = (if i + batchSize > int (length files) then int (length files) else i + batchSize)"
    have e: "i \<le> end1" "end1 \<le> int (length files)" using bs True by (auto simp: end1_def)
    have d: "drop (nat (i + batchSize)) files = drop (nat end1) files"
      using bs less.prems by (auto simp: end1_def)
    have split: "drop (nat i) files = slice files i end1 @ drop (nat end1) files"
      using slice_drop [OF less.prems e(1), of files] by simp
    have ih: "insertTorrentLoop flt batchSize files (i + batchSize) tx' =
        Some (insertTorrentBatch flt (drop (nat end1) files) tx')" for tx'
    proof -
      have "length files - nat (i + batchSize) < length files - nat i"
        using bs True less.prems by linarith
      moreover have "0 \<le> i + batchSize" using bs less.prems by simp
      ultimately show ?thesis using less.hyps [of "i + batchSize" tx'] d by simp
    qed
    show ?thesis
      apply (subst insertTorrentLoop.simps)
      using True e ih
      by (simp add: Let_def end1_def [symmetric] split insertTorrentBatch_append split: sum.splits)
  qed
qed


lemma insertLocalLoop_batches:
  assumes bs: "1 \<le> batchSize"
  shows "0 \<le> i \<Longrightarrow>
    insertLocalLoop flt batchSize files i tx = Some (insertLocalBatch flt (drop (nat i) files) tx)"
proof (induction "length files - nat i" arbitrary: i tx rule: less_induct)
  case less
  show ?case
  proof (cases "i < int (length files)")
    case False
    then show ?thesis using less.prems by (subst insertLocalLoop.simps) simp
  next
    case True
    define end1 where "end1 = (if i + batchSize > int (length files) then int (length files) else i + batchSize)"
    have e: "i \<le> end1" "end1 \<le> int (length files)" using bs True by (auto simp: end1_def)
    have d: "drop (nat (i + batchSize)) files = drop (nat end1) files"
      using bs less.prems by (auto simp: end1_def)
    have split: "drop (nat i) files = slice files i end1 @ drop (nat end1) files"
      using slice_drop [OF less.prems e(1), of files] by simp
    have ih: "insertLocalLoop flt batchSize files (i + batchSize) tx' =
        Some (insertLocalBatch flt (drop (nat end1) files) tx')" for tx'
    proof -
      have "length files - nat (i + batchSize) < length files - nat i"
        using bs True less.prems by linarith
      moreover have "0 \<le> i + batchSize" using bs less.prems by simp
      ultimately show ?thesis using less.hyps [of "i + batchSize" tx'] d by simp
    qed
    show ?thesis
      apply (subst insertLocalLoop.simps)
      using True e ih
      by (simp add: Let_def end1_def [symmetric] split insertLocalBatch_append split: sum.splits)
  qed
qed


lemma InsertTorrentFiles_batches:
  assumes "1 \<le> batchSize"
  shows "InsertTorrentFiles flt batchSize db files =
    Some (if files = [] then (None, db)
          else if flt = FailBegin then (Some ErrBeginTx, db)
          else if flt = FailPrepare then (Some ErrPrepare, db)
          else (case insertTorrentBatch flt files
                   \<lparr> tx_rows = torrent_files db, tx_seq = torrent_files_seq db, tx_execs = 0 \<rparr> of
                  Inl err \<Rightarrow> (Some err, db)
                | Inr tx' \<Rightarrow>
                    if flt = FailCommit then (Some ErrCommit, db)
                    else (None, db\<lparr> torrent_files := tx_rows tx',
                                     torrent_files_seq := tx_seq tx' \<rparr>)))"
  using insertTorrentLoop_batches [OF assms, of 0 flt files]
  by (simp add: InsertTorrentFiles_def split: sum.splits)

lemma InsertLocalFiles_batches:
  assumes "1 \<le> batchSize"
  shows "InsertLocalFiles flt batchSize db files =
    Some (if files = [] then (None, db)
          else if flt = FailBegin then (Some ErrBeginTx, db)
          else if flt = FailPrepare then (Some ErrPrepare, db)
          else (case insertLocalBatch flt files
                   \<lparr> tx_rows = local_files db, tx_seq = local_files_seq db, tx_execs = 0 \<rparr> of
                  Inl err \<Rightarrow> (Some err, db)
                | Inr tx' \<Rightarrow>
                    if flt = FailCommit then (Some ErrCommit, db)
                    else (None, db\<lparr> local_files := tx_rows tx',
                                     local_files_seq := tx_seq tx' \<rparr>)))"
  using insertLocalLoop_batches [OF assms, of 0 flt files]
  by (simp add: InsertLocalFiles_def split: sum.splits)

lemma InsertTorrentFiles_error_unchanged:
  "1 \<le> batchSize \<Longrightarrow> InsertTorrentFiles flt batchSize db files = Some (Some err, db') \<Longrightarrow> db' = db"
  by (auto simp: InsertTorrentFiles_batches split: if_splits sum.splits)

lemma InsertLocalFiles_error_unchanged:
  "1 \<le> batchSize \<Longrightarrow> InsertLocalFiles flt batchSize db files = Some (Some err, db') \<Longrightarrow> db' = db"
  by (auto simp: InsertLocalFiles_batches split: if_splits sum.splits)

lemma InsertTorrentFiles_returns:
  "1 \<le> batchSize \<Longrightarrow> \<exists>r. InsertTorrentFiles flt batchSize db files = Some r"
  by (simp add: InsertTorrentFiles_batches)

lemma InsertLocalFiles_returns:
  "1 \<le> batchSize \<Longrightarrow> \<exists>r. InsertLocalFiles flt batchSize db files = Some r"
  by (simp add: InsertLocalFiles_batches)

lemma InsertLocalFiles_other_table:
  "1 \<le> batchSize \<Longrightarrow> InsertLocalFiles flt batchSize db files = Some (res, db')
     \<Longrightarrow> torrent_files db' = torrent_files db \<and> torrent_files_seq db' = torrent_files_seq db"
  by (auto simp: InsertLocalFiles_batches split: if_splits sum.splits)

lemma InsertTorrentFiles_other_table:
  "1 \<le> batchSize \<Longrightarrow> InsertTorrentFiles flt batchSize db files = Some (res, db')
     \<Longrightarrow> local_files db' = local_files db \<and> local_files_seq db' = local_files_seq db"
  by (auto simp: InsertTorrentFiles_batches split: if_splits sum.splits)

section \<open>Clear and insert are separate units\<close>

text \<open>
  Claim C3, as the code has it. Only the batched insert runs in a transaction: when
  \<open>InsertLocalFiles\<close> or \<open>InsertTorrentFiles\<close> returns an error, the store is as it was
  before the call. The clear is a statement of its own that is committed when it
  returns, before the insert begins: when the clear succeeds and the insert that follows
  fails, the table is left empty, and the other table is as it was.
\<close>

theorem insert_atomic_clear_committed:
  "1 \<le> batchSize \<longrightarrow>
     (\<exists>r. InsertLocalFiles flt batchSize db files = Some r \<and> (fst r \<noteq> None \<longrightarrow> snd r = db))
     \<and> (\<exists>r. InsertTorrentFiles flt batchSize db tfiles = Some r \<and> (fst r \<noteq> None \<longrightarrow> snd r = db))
     \<and> (\<exists>r. syncLocalFiles NoFault flt batchSize db files = Some r
           \<and> (fst r \<noteq> None \<longrightarrow> snd r = db\<lparr> local_files := [] \<rparr>))
     \<and> (\<exists>r. syncTorrentFiles NoFault flt batchSize db tfiles = Some r
           \<and> (fst r \<noteq> None \<longrightarrow> snd r = db\<lparr> torrent_files := [] \<rparr>))"
proof (intro impI conjI)
  assume bs: "1 \<le> batchSize"
  obtain r where r: "InsertLocalFiles flt batchSize db files = Some r"
    using InsertLocalFiles_returns [OF bs] by blast
  then have "fst r \<noteq> None \<longrightarrow> snd r = db"
    using InsertLocalFiles_error_unchanged [OF bs, of flt db files _ "snd r"]
    by (cases r) auto
  with r show "\<exists>r. InsertLocalFiles flt batchSize db files = Some r \<and> (fst r \<noteq> None \<longrightarrow> snd r = db)"
    by blast
  obtain r where r: "InsertTorrentFiles flt batchSize db tfiles = Some r"
    using InsertTorrentFiles_returns [OF bs] by blast
  then have "fst r \<noteq> None \<longrightarrow> snd r = db"
    using InsertTorrentFiles_error_unchanged [OF bs, of flt db tfiles _ "snd r"]
    by (cases r) auto
  with r show "\<exists>r. InsertTorrentFiles flt batchSize db tfiles = Some r \<and> (fst r \<noteq> None \<longrightarrow> snd r = db)"
    by blast
  obtain r where r: "InsertLocalFiles flt batchSize (db\<lparr> local_files := [] \<rparr>) files = Some r"
    using InsertLocalFiles_returns [OF bs] by blast
  then have "fst r \<noteq> None \<longrightarrow> snd r = db\<lparr> local_files := [] \<rparr>"
    using InsertLocalFiles_error_unchanged [OF bs, of flt "db\<lparr> local_files := [] \<rparr>" files _ "snd r"]
    by (cases r) auto
  with r show "\<exists>r. syncLocalFiles NoFault flt batchSize db files = Some r
           \<and> (fst r \<noteq> None \<longrightarrow> snd r = db\<lparr> local_files := [] \<rparr>)"
    by (simp add: syncLocalFiles_def ClearLocalFiles_def)
  obtain r where r: "InsertTorrentFiles flt batchSize (db\<lparr> torrent_files := [] \<rparr>) tfiles = Some r"
    using InsertTorrentFiles_returns [OF bs] by blast
  then have "fst r \<noteq> None \<longrightarrow> snd r = db\<lparr> torrent_files := [] \<rparr>"
    using InsertTorrentFiles_error_unchanged [OF bs, of flt "db\<lparr> torrent_files := [] \<rparr>" tfiles _ "snd r"]
    by (cases r) auto
  with r show "\<exists>r. syncTorrentFiles NoFault flt batchSize db tfiles = Some r
           \<and> (fst r \<noteq> None \<longrightarrow> snd r = db\<lparr> torrent_files := [] \<rparr>)"
    by (simp add: syncTorrentFiles_def ClearTorrentFiles_def)
qed

lemmas path_eval = Let_def normalizeLocalPath_def extractRelativePath_def markers_def Index_def HasPrefix_def

lemma scenarioDB_synced:
  "syncTorrentFiles NoFault NoFault 1000 emptyDB scenarioRemote
     = Some (None, emptyDB\<lparr> torrent_files := torrent_files scenarioDB, torrent_files_seq := 1 \<rparr>)
   \<and> syncLocalFiles NoFault NoFault 1000
       (emptyDB\<lparr> torrent_files := torrent_files scenarioDB, torrent_files_seq := 1 \<rparr>) scenarioLocal
     = Some (None, scenarioDB)"
  by (simp add: syncTorrentFiles_def syncLocalFiles_def ClearTorrentFiles_def ClearLocalFiles_def
      InsertTorrentFiles_batches InsertLocalFiles_batches scenarioRemote_def scenarioLocal_def
      scenarioDB_def emptyDB_def execInsertTorrent_def execInsertLocal_def path_eval)

lemma twoOrphansDB_synced:
  "syncLocalFiles NoFault NoFault 1000 emptyDB scenarioLocal = Some (None, twoOrphansDB)"
  by (simp add: syncLocalFiles_def ClearLocalFiles_def InsertLocalFiles_batches scenarioLocal_def
      twoOrphansDB_def emptyDB_def execInsertLocal_def path_eval)

text \<open>
  Witness for C3: in the scenario, an insert whose commit fails leaves the store as it
  was, and the refresh (clear, then the same insert) leaves the local table empty.
\<close>

theorem insert_atomic_clear_committed_witness:
  "(1 :: int) \<le> 1000
   \<and> InsertLocalFiles FailCommit 1000 scenarioDB scenarioLocal = Some (Some ErrCommit, scenarioDB)
   \<and> InsertTorrentFiles FailCommit 1000 scenarioDB scenarioRemote = Some (Some ErrCommit, scenarioDB)
   \<and> syncLocalFiles NoFault FailCommit 1000 scenarioDB scenarioLocal
       = Some (Some ErrCommit, scenarioDB\<lparr> local_files := [] \<rparr>)
   \<and> syncTorrentFiles NoFault FailCommit 1000 scenarioDB scenarioRemote
       = Some (Some ErrCommit, scenarioDB\<lparr> torrent_files := [] \<rparr>)"
proof -
  have bs: "(1 :: int) \<le> 1000" by simp
  have a: "fst r = Some ErrCommit" if "InsertLocalFiles FailCommit 1000 db scenarioLocal = Some r"
    for r db
    using that
    by (auto simp: InsertLocalFiles_batches scenarioLocal_def execInsertLocal_def Let_def
        split: if_splits sum.splits)
  have b: "fst r = Some ErrCommit" if "InsertTorrentFiles FailCommit 1000 db scenarioRemote = Some r"
    for r db
    using that
    by (auto simp: InsertTorrentFiles_batches scenarioRemote_def execInsertTorrent_def Let_def
        split: if_splits sum.splits)
  have c: "fst r = Some ErrCommit" if "syncLocalFiles NoFault FailCommit 1000 db scenarioLocal = Some r"
    for r db
    using that a by (simp add: syncLocalFiles_def ClearLocalFiles_def)
  have d: "fst r = Some ErrCommit" if "syncTorrentFiles NoFault FailCommit 1000 db scenarioRemote = Some r"
    for r db
    using that b by (simp add: syncTorrentFiles_def ClearTorrentFiles_def)
  from insert_atomic_clear_committed [of 1000 FailCommit scenarioDB scenarioLocal scenarioRemote] bs
  show ?thesis
    using a b c d by (metis option.distinct(1) prod.collapse)
qed

text \<open>
  Counterexample for C3 as stated: the scenario's store holds two committed local rows;
  the refresh clears the table, the commit of the insert fails, and the table is empty
  afterwards: the rows of the previous pass are gone.
\<close>

theorem clear_not_rolled_back_counterexample:
  "length (local_files scenarioDB) = 2
   \<and> syncLocalFiles NoFault FailCommit 1000 scenarioDB scenarioLocal
       = Some (Some ErrCommit, scenarioDB\<lparr> local_files := [] \<rparr>)
   \<and> scenarioDB\<lparr> local_files := [] \<rparr> \<noteq> scenarioDB"
proof -
  have "local_files (scenarioDB\<lparr> local_files := [] \<rparr>) \<noteq> local_files scenarioDB"
    by (simp add: scenarioDB_def)
  then have "scenarioDB\<lparr> local_files := [] \<rparr> \<noteq> scenarioDB" by metis
  moreover have "syncLocalFiles NoFault FailCommit 1000 scenarioDB scenarioLocal
       = Some (Some ErrCommit, scenarioDB\<lparr> local_files := [] \<rparr>)"
    by (simp add: syncLocalFiles_def ClearLocalFiles_def InsertLocalFiles_batches
        scenarioLocal_def execInsertLocal_def Let_def)
  moreover have "length (local_files scenarioDB) = 2" by (simp add: scenarioDB_def)
  ultimately show ?thesis by simp
qed

section \<open>The mount prefix\<close>

text \<open>
  Claim C10. \<open>normalizeLocalPath\<close> removes the four bytes \<open>/mnt\<close> from the front of
  every path that starts with them, whatever follows (also when \<open>/mnt\<close> is not a whole
  path segment), and removes them once: what follows is returned as it is, also when it
  starts with \<open>/mnt\<close> again. The path stored for an inserted local file is the path
  stripped in this way.
\<close>

theorem mount_prefix_stripped_once:
  "normalizeLocalPath (''/mnt'' @ q) = q
   \<and> normalizeLocalPath ''/mntdata/file.mkv'' = ''data/file.mkv''
   \<and> normalizeLocalPath ''/mnt/mnt/x'' = ''/mnt/x''
   \<and> (\<exists>db. InsertLocalFiles NoFault 1000 emptyDB [file\<lparr> LocalFile.FilePath := ''/mnt'' @ q \<rparr>]
             = Some (None, db)
           \<and> map l_file_path (local_files db) = [q])
   \<and> (\<exists>db. InsertLocalFiles NoFault 1000 emptyDB [file\<lparr> LocalFile.FilePath := ''/mntdata/file.mkv'' \<rparr>]
             = Some (None, db)
           \<and> map l_file_path (local_files db) = [''data/file.mkv''])
   \<and> (\<exists>db. InsertLocalFiles NoFault 1000 emptyDB [file\<lparr> LocalFile.FilePath := ''/mnt/mnt/x'' \<rparr>]
             = Some (None, db)
           \<and> map l_file_path (local_files db) = [''/mnt/x''])"
proof -
  have a: "normalizeLocalPath (''/mnt'' @ q) = q" for q
    by (simp add: normalizeLocalPath_def HasPrefix_def)
  have b: "\<exists>db. InsertLocalFiles NoFault 1000 emptyDB [file\<lparr> LocalFile.FilePath := p \<rparr>]
             = Some (None, db)
           \<and> map l_file_path (local_files db) = [normalizeLocalPath p]" for p
    by (simp add: InsertLocalFiles_batches execInsertLocal_def emptyDB_def Let_def)
  show ?thesis
    using a [of q] a [of "''data/file.mkv''"] a [of "''/mnt/x''"]
      b [of "''/mnt'' @ q"] b [of "''/mnt'' @ ''data/file.mkv''"] b [of "''/mnt'' @ ''/mnt/x''"]
    by simp
qed

section \<open>The insert operations keep the invariants of the store\<close>

lemma execInsertTorrent_inv:
  assumes "torrent_tx_inv tx"
    and "execInsertTorrent flt tx file (extractRelativePath (TorrentFile.FilePath file)) = Inr tx'"
  shows "torrent_tx_inv tx'"
proof -
  from assms(2) have tx': "tx' = \<lparr> tx_rows = tx_rows tx @
                   [\<lparr> t_id = Suc (tx_seq tx),
                      t_torrent_hash = TorrentHash file,
                      t_torrent_name = TorrentName file,
                      t_file_name = TorrentFile.FileName file,
                      t_file_path = TorrentFile.FilePath file,
                      t_relative_path = extractRelativePath (TorrentFile.FilePath file),
                      t_size = TorrentFile.Size file \<rparr>],
                 tx_seq = Suc (tx_seq tx),
                 tx_execs = Suc (tx_execs tx) \<rparr>"
    by (auto simp: execInsertTorrent_def split: if_splits)
  from assms(1) have "\<forall>r\<in>set (tx_rows tx). t_id r < Suc (tx_seq tx)"
    by (auto simp: torrent_tx_inv_def list_all_iff)
  with assms(1) show ?thesis
    unfolding tx' torrent_tx_inv_def
    by (auto simp: list_all_iff sorted_wrt_append le_Suc_eq)
qed

lemma insertTorrentBatch_inv:
  "torrent_tx_inv tx \<Longrightarrow> insertTorrentBatch flt files tx = Inr tx' \<Longrightarrow> torrent_tx_inv tx'"
proof (induction files arbitrary: tx)
  case Nil
  then show ?case by simp
next
  case (Cons f fs)
  then show ?case
    by (auto simp: Let_def split: sum.splits dest: execInsertTorrent_inv)
qed

lemma execInsertLocal_inv:
  assumes "local_tx_inv tx"
    and "execInsertLocal flt tx p file (extractRelativePath p) = Inr tx'"
  shows "local_tx_inv tx'"
proof -
  let ?kept = "filter (\<lambda>r. l_file_path r \<noteq> p) (tx_rows tx)"
  from assms(2) have tx': "tx' = \<lparr> tx_rows = ?kept @
                   [\<lparr> l_id = Suc (tx_seq tx),
                      l_file_path = p,
                      l_file_name = LocalFile.FileName file,
                      l_relative_path = extractRelativePath p,
                      l_size = LocalFile.Size file,
                      l_category = LocalFile.Category file \<rparr>],
                 tx_seq = Suc (tx_seq tx),
                 tx_execs = Suc (tx_execs tx) \<rparr>"
    by (auto simp: execInsertLocal_def split: if_splits)
  from assms(1) have lt: "\<forall>r\<in>set ?kept. l_id r < Suc (tx_seq tx)"
    by (auto simp: local_tx_inv_def list_all_iff)
  from assms(1) have s: "sorted_wrt (<) (map l_id ?kept)"
    by (simp add: local_tx_inv_def sorted_wrt_map sorted_wrt_filter)
  from assms(1) have d: "distinct (map l_file_path ?kept)"
    by (simp add: local_tx_inv_def distinct_map_filter)
  from assms(1) have k: "\<forall>r\<in>set ?kept. l_relative_path r = extractRelativePath (l_file_path r)"
    by (auto simp: local_tx_inv_def list_all_iff)
  show ?thesis
    unfolding tx' local_tx_inv_def using lt s d k
    by (auto simp: list_all_iff sorted_wrt_append le_Suc_eq)
qed

lemma insertLocalBatch_inv:
  "local_tx_inv tx \<Longrightarrow> insertLocalBatch flt files tx = Inr tx' \<Longrightarrow> local_tx_inv tx'"
proof (induction files arbitrary: tx)
  case Nil
  then show ?case by simp
next
  case (Cons f fs)
  then show ?case
    by (auto simp: Let_def split: sum.splits dest: execInsertLocal_inv)
qed

lemma store_inv_emptyDB: "store_inv emptyDB"
  by (simp add: store_inv_def keys_computed_def ids_increasing_def emptyDB_def)

lemma store_inv_tx:
  "store_inv db =
     (torrent_tx_inv \<lparr> tx_rows = torrent_files db, tx_seq = torrent_files_seq db, tx_execs = n \<rparr>
      \<and> local_tx_inv \<lparr> tx_rows = local_files db, tx_seq = local_files_seq db, tx_execs = m \<rparr>)"
  by (auto simp: store_inv_def keys_computed_def ids_increasing_def torrent_tx_inv_def
      local_tx_inv_def)

lemma tx_inv_execs:
  "torrent_tx_inv tx = torrent_tx_inv \<lparr> tx_rows = tx_rows tx, tx_seq = tx_seq tx, tx_execs = n \<rparr>"
  "local_tx_inv tx' = local_tx_inv \<lparr> tx_rows = tx_rows tx', tx_seq = tx_seq tx', tx_execs = n \<rparr>"
  by (simp_all add: torrent_tx_inv_def local_tx_inv_def)

lemma InsertTorrentFiles_inv:
  assumes "1 \<le> batchSize" "store_inv db"
    and "InsertTorrentFiles flt batchSize db files = Some (res, db')"
  shows "store_inv db'"
proof (cases "db' = db")
  case True
  with assms(2) show ?thesis by simp
next
  case False
  with assms(1,3) obtain tx' where
    tx': "insertTorrentBatch flt files
            \<lparr> tx_rows = torrent_files db, tx_seq = torrent_files_seq db, tx_execs = 0 \<rparr> = Inr tx'"
    and db': "db' = db\<lparr> torrent_files := tx_rows tx', torrent_files_seq := tx_seq tx' \<rparr>"
    by (auto simp: InsertTorrentFiles_batches split: if_splits sum.splits)
  from assms(2) have "torrent_tx_inv
      \<lparr> tx_rows = torrent_files db, tx_seq = torrent_files_seq db, tx_execs = 0 \<rparr>"
    using store_inv_tx [of db 0 0] by simp
  then have "torrent_tx_inv tx'" using tx' by (rule insertTorrentBatch_inv)
  then have "torrent_tx_inv \<lparr> tx_rows = tx_rows tx', tx_seq = tx_seq tx', tx_execs = 0 \<rparr>"
    using tx_inv_execs(1) by blast
  moreover from assms(2) have "local_tx_inv
      \<lparr> tx_rows = local_files db, tx_seq = local_files_seq db, tx_execs = 0 \<rparr>"
    using store_inv_tx [of db 0 0] by simp
  ultimately show ?thesis
    unfolding db' using store_inv_tx [of "db\<lparr> torrent_files := tx_rows tx', torrent_files_seq := tx_seq tx' \<rparr>" 0 0]
    by simp
qed

lemma InsertLocalFiles_inv:
  assumes "1 \<le> batchSize" "store_inv db"
    and "InsertLocalFiles flt batchSize db files = Some (res, db')"
  shows "store_inv db'"
proof (cases "db' = db")
  case True
  with assms(2) show ?thesis by simp
next
  case False
  with assms(1,3) obtain tx' where
    tx': "insertLocalBatch flt files
            \<lparr> tx_rows = local_files db, tx_seq = local_files_seq db, tx_execs = 0 \<rparr> = Inr tx'"
    and db': "db' = db\<lparr> local_files := tx_rows tx', local_files_seq := tx_seq tx' \<rparr>"
    by (auto simp: InsertLocalFiles_batches split: if_splits sum.splits)
  from assms(2) have "local_tx_inv
      \<lparr> tx_rows = local_files db, tx_seq = local_files_seq db, tx_execs = 0 \<rparr>"
    using store_inv_tx [of db 0 0] by simp
  then have "local_tx_inv tx'" using tx' by (rule insertLocalBatch_inv)
  then have "local_tx_inv \<lparr> tx_rows = tx_rows tx', tx_seq = tx_seq tx', tx_execs = 0 \<rparr>"
    using tx_inv_execs(2) by blast
  moreover from assms(2) have "torrent_tx_inv
      \<lparr> tx_rows = torrent_files db, tx_seq = torrent_files_seq db, tx_execs = 0 \<rparr>"
    using store_inv_tx [of db 0 0] by simp
  ultimately show ?thesis
    unfolding db' using store_inv_tx [of "db\<lparr> local_files := tx_rows tx', local_files_seq := tx_seq tx' \<rparr>" 0 0]
    by simp
qed

lemma Clear_inv:
  "store_inv db \<Longrightarrow> store_inv (snd (ClearTorrentFiles flt db))"
  "store_inv db \<Longrightarrow> store_inv (snd (ClearLocalFiles flt db))"
  by (auto simp: ClearTorrentFiles_def ClearLocalFiles_def store_inv_def keys_computed_def
      ids_increasing_def)

lemma sync_inv:
  assumes "1 \<le> batchSize" "store_inv db"
  shows "syncTorrentFiles fc fi batchSize db tfiles = Some (res, db') \<Longrightarrow> store_inv db'"
    and "syncLocalFiles fc fi batchSize db lfiles = Some (res, db') \<Longrightarrow> store_inv db'"
proof -
  assume "syncTorrentFiles fc fi batchSize db tfiles = Some (res, db')"
  then show "store_inv db'"
    using Clear_inv(1) [OF assms(2), of fc] InsertTorrentFiles_inv [OF assms(1)] assms(2)
    by (auto simp: syncTorrentFiles_def split: prod.splits option.splits)
next
  assume "syncLocalFiles fc fi batchSize db lfiles = Some (res, db')"
  then show "store_inv db'"
    using Clear_inv(2) [OF assms(2), of fc] InsertLocalFiles_inv [OF assms(1)] assms(2)
    by (auto simp: syncLocalFiles_def split: prod.splits option.splits)
qed

lemma store_inv_scenarioDB: "store_inv scenarioDB"
  using scenarioDB_synced sync_inv [of 1000] store_inv_emptyDB
  by (metis one_le_numeral)

section \<open>Facts about the queries\<close>

lemma normalizeQueryOptions_same:
  "Sort (normalizeQueryOptions opts) = Sort opts"
  "Search (normalizeQueryOptions opts) = Search opts"
  "QueryOptions.Category (normalizeQueryOptions opts) = QueryOptions.Category opts"
  by (simp_all add: normalizeQueryOptions_def Let_def)

lemma normalizeQueryOptions_Order:
  "Order (normalizeQueryOptions opts) = ''asc'' \<or> Order (normalizeQueryOptions opts) = ''desc''"
  by (simp add: normalizeQueryOptions_def Let_def)

lemma normalizeQueryOptions_Page:
  "QueryOptions.Page (normalizeQueryOptions opts)
     = (if QueryOptions.Page opts < 1 then 1 else QueryOptions.Page opts)"
  by (simp add: normalizeQueryOptions_def Let_def)

lemma normalizeQueryOptions_PerPage:
  "QueryOptions.PerPage (normalizeQueryOptions opts)
     = (if QueryOptions.PerPage opts < 1 then 100
        else if QueryOptions.PerPage opts > 1000 then 1000 else QueryOptions.PerPage opts)"
  by (simp add: normalizeQueryOptions_def Let_def)

lemma normalizeQueryOptions_Sort_upd:
  "normalizeQueryOptions (opts\<lparr>Sort := s\<rparr>) = (normalizeQueryOptions opts)\<lparr>Sort := s\<rparr>"
  by (simp add: normalizeQueryOptions_def Let_def)

lemma order_rows_mset: "order_rows key dir rows = Inr ordered \<Longrightarrow> mset ordered = mset rows"
  by (auto simp: order_rows_def split: if_splits)

lemma order_rows_returns:
  "dir = ''ASC'' \<or> dir = ''asc'' \<or> dir = ''DESC'' \<or> dir = ''desc''
     \<Longrightarrow> \<exists>ordered. order_rows key dir rows = Inr ordered"
  by (auto simp: order_rows_def)

lemma torrentOrderClause_range:
  "fst (torrentOrderClause (normalizeQueryOptions opts))
     \<in> {''id'', ''torrent_hash'', ''torrent_name'', ''file_name'', ''file_path'', ''size''}
   \<and> snd (torrentOrderClause (normalizeQueryOptions opts)) \<in> {''ASC'', ''asc'', ''desc''}"
  using normalizeQueryOptions_Order [of opts]
  by (auto simp: torrentOrderClause_def allowedTorrentColumns_def normalizeQueryOptions_same
      split: if_splits)

lemma localOrderClause_range:
  "fst (localOrderClause (normalizeQueryOptions opts))
     \<in> {''id'', ''file_path'', ''file_name'', ''size'', ''category''}
   \<and> snd (localOrderClause (normalizeQueryOptions opts)) \<in> {''ASC'', ''asc'', ''desc''}"
  using normalizeQueryOptions_Order [of opts]
  by (auto simp: localOrderClause_def allowedLocalColumns_def normalizeQueryOptions_same
      split: if_splits)

lemma orphanOrderClause_range:
  "fst (orphanOrderClause (normalizeQueryOptions opts))
     \<in> {''l.file_path'', ''l.file_name'', ''l.size'', ''l.category''}
   \<and> snd (orphanOrderClause (normalizeQueryOptions opts)) \<in> {''DESC'', ''asc'', ''desc''}"
  using normalizeQueryOptions_Order [of opts]
  by (auto simp: orphanOrderClause_def allowedOrphanColumns_def normalizeQueryOptions_same
      split: if_splits)

lemma torrentOrderBy_returns:
  assumes "fst cl \<in> {''id'', ''torrent_hash'', ''torrent_name'', ''file_name'', ''file_path'', ''size''}"
    and "snd cl \<in> {''ASC'', ''asc'', ''desc''}"
  shows "\<exists>ordered. torrentOrderBy cl rows = Inr ordered \<and> mset ordered = mset rows"
proof -
  from assms(2) have d: "snd cl = ''ASC'' \<or> snd cl = ''asc'' \<or> snd cl = ''DESC'' \<or> snd cl = ''desc''"
    by auto
  from assms(1) have "\<exists>ordered. torrentOrderBy cl rows = Inr ordered"
    unfolding torrentOrderBy_def Let_def by (elim insertE) (simp_all add: order_rows_returns [OF d])
  then show ?thesis
    by (auto simp: torrentOrderBy_def Let_def split: if_splits dest: order_rows_mset)
qed

lemma localOrderBy_returns:
  assumes "fst cl \<in> {''id'', ''file_path'', ''file_name'', ''size'', ''category''}"
    and "snd cl \<in> {''ASC'', ''asc'', ''desc''}"
  shows "\<exists>ordered. localOrderBy cl rows = Inr ordered \<and> mset ordered = mset rows"
proof -
  from assms(2) have d: "snd cl = ''ASC'' \<or> snd cl = ''asc'' \<or> snd cl = ''DESC'' \<or> snd cl = ''desc''"
    by auto
  from assms(1) have "\<exists>ordered. localOrderBy cl rows = Inr ordered"
    unfolding localOrderBy_def Let_def by (elim insertE) (simp_all add: order_rows_returns [OF d])
  then show ?thesis
    by (auto simp: localOrderBy_def Let_def split: if_splits dest: order_rows_mset)
qed

lemma orphanOrderBy_returns:
  assumes "fst cl \<in> {''l.file_path'', ''l.file_name'', ''l.size'', ''l.category''}"
    and "snd cl \<in> {''DESC'', ''asc'', ''desc''}"
  shows "\<exists>ordered. orphanOrderBy cl rows = Inr ordered \<and> mset ordered = mset rows"
proof -
  from assms(2) have d: "snd cl = ''ASC'' \<or> snd cl = ''asc'' \<or> snd cl = ''DESC'' \<or> snd cl = ''desc''"
    by auto
  from assms(1) have "\<exists>ordered. orphanOrderBy cl rows = Inr ordered"
    unfolding orphanOrderBy_def Let_def by (elim insertE) (simp_all add: order_rows_returns [OF d])
  then show ?thesis
    by (auto simp: orphanOrderBy_def Let_def split: if_splits dest: order_rows_mset)
qed

lemma GetTorrentFiles_unfold:
  "\<exists>ordered.
     torrentOrderBy (torrentOrderClause (normalizeQueryOptions opts))
        (filter (\<lambda>r. list_all (\<lambda>c. c r) (torrentConditions (normalizeQueryOptions opts)))
           (torrent_files db)) = Inr ordered
     \<and> mset ordered = mset (filter (\<lambda>r. list_all (\<lambda>c. c r)
            (torrentConditions (normalizeQueryOptions opts))) (torrent_files db))
     \<and> GetTorrentFiles db opts =
         Inr (map scanTorrentFile
                (sql_limit (QueryOptions.PerPage (normalizeQueryOptions opts))
                   (wrap64 ((QueryOptions.Page (normalizeQueryOptions opts) - 1)
                            * QueryOptions.PerPage (normalizeQueryOptions opts))) ordered),
              int (length (filter (\<lambda>r. list_all (\<lambda>c. c r)
                 (torrentConditions (normalizeQueryOptions opts))) (torrent_files db))))"
proof -
  obtain ordered where o: "torrentOrderBy (torrentOrderClause (normalizeQueryOptions opts))
        (filter (\<lambda>r. list_all (\<lambda>c. c r) (torrentConditions (normalizeQueryOptions opts)))
           (torrent_files db)) = Inr ordered"
     "mset ordered = mset (filter (\<lambda>r. list_all (\<lambda>c. c r)
            (torrentConditions (normalizeQueryOptions opts))) (torrent_files db))"
    using torrentOrderBy_returns torrentOrderClause_range by blast
  then show ?thesis by (simp add: GetTorrentFiles_def Let_def)
qed

lemma GetLocalFiles_unfold:
  "\<exists>ordered.
     localOrderBy (localOrderClause (normalizeQueryOptions opts))
        (filter (\<lambda>r. list_all (\<lambda>c. c r) (localConditions (normalizeQueryOptions opts)))
           (local_files db)) = Inr ordered
     \<and> mset ordered = mset (filter (\<lambda>r. list_all (\<lambda>c. c r)
            (localConditions (normalizeQueryOptions opts))) (local_files db))
     \<and> GetLocalFiles db opts =
         Inr (map scanLocalFile
                (sql_limit (QueryOptions.PerPage (normalizeQueryOptions opts))
                   (wrap64 ((QueryOptions.Page (normalizeQueryOptions opts) - 1)
                            * QueryOptions.PerPage (normalizeQueryOptions opts))) ordered),
              int (length (filter (\<lambda>r. list_all (\<lambda>c. c r)
                 (localConditions (normalizeQueryOptions opts))) (local_files db))))"
proof -
  obtain ordered where o: "localOrderBy (localOrderClause (normalizeQueryOptions opts))
        (filter (\<lambda>r. list_all (\<lambda>c. c r) (localConditions (normalizeQueryOptions opts)))
           (local_files db)) = Inr ordered"
     "mset ordered = mset (filter (\<lambda>r. list_all (\<lambda>c. c r)
            (localConditions (normalizeQueryOptions opts))) (local_files db))"
    using localOrderBy_returns localOrderClause_range by blast
  then show ?thesis by (simp add: GetLocalFiles_def Let_def)
qed

lemma GetOrphanFiles_unfold:
  "\<exists>ordered.
     orphanOrderBy (orphanOrderClause (normalizeQueryOptions opts))
        (filter (\<lambda>r. list_all (\<lambda>c. c r) (orphanConditions (normalizeQueryOptions opts)))
           (leftJoin (local_files db) (torrent_files db))) = Inr ordered
     \<and> mset ordered = mset (filter (\<lambda>r. list_all (\<lambda>c. c r)
            (orphanConditions (normalizeQueryOptions opts)))
              (leftJoin (local_files db) (torrent_files db)))
     \<and> GetOrphanFiles db opts =
         Inr (map scanOrphanFile
                (sql_limit (QueryOptions.PerPage (normalizeQueryOptions opts))
                   (wrap64 ((QueryOptions.Page (normalizeQueryOptions opts) - 1)
                            * QueryOptions.PerPage (normalizeQueryOptions opts))) ordered),
              int (length (filter (\<lambda>r. list_all (\<lambda>c. c r)
                 (orphanConditions (normalizeQueryOptions opts)))
                   (leftJoin (local_files db) (torrent_files db)))))"
proof -
  obtain ordered where o: "orphanOrderBy (orphanOrderClause (normalizeQueryOptions opts))
        (filter (\<lambda>r. list_all (\<lambda>c. c r) (orphanConditions (normalizeQueryOptions opts)))
           (leftJoin (local_files db) (torrent_files db))) = Inr ordered"
     "mset ordered = mset (filter (\<lambda>r. list_all (\<lambda>c. c r)
            (orphanConditions (normalizeQueryOptions opts)))
              (leftJoin (local_files db) (torrent_files db)))"
    using orphanOrderBy_returns orphanOrderClause_range by blast
  then show ?thesis by (simp add: GetOrphanFiles_def Let_def)
qed

lemma wrap64_id: "- (2 ^ 63) \<le> x \<Longrightarrow> x < 2 ^ 63 \<Longrightarrow> wrap64 x = x"
  by (simp add: wrap64_def)


section \<open>The orphan query computes the set difference of the keys\<close>





lemmas query_eval =
  normalizeQueryOptions_def orphanConditions_def orphanOrderClause_def orphanOrderBy_def
  localConditions_def localOrderClause_def localOrderBy_def
  torrentConditions_def torrentOrderClause_def torrentOrderBy_def
  allowedOrphanColumns_def allowedLocalColumns_def allowedTorrentColumns_def
  order_rows_def sql_limit_def wrap64_def leftJoin_def
  scanOrphanFile_def scanLocalFile_def scanTorrentFile_def Let_def


section \<open>Sort columns outside the whitelist\<close>




















section \<open>Totals and pages\<close>

lemma matching_depends_on_filters:
  assumes "Search o1 = Search o2" "QueryOptions.Category o1 = QueryOptions.Category o2"
  shows "torrentMatching db o1 = torrentMatching db o2"
    and "localMatching db o1 = localMatching db o2"
    and "orphanMatching db o1 = orphanMatching db o2"
  using assms
  by (simp_all add: torrentMatching_def localMatching_def orphanMatching_def
      torrentConditions_def localConditions_def orphanConditions_def normalizeQueryOptions_same)

lemma total_counts_matching:
  "\<exists>files. GetTorrentFiles db opts = Inr (files, int (length (torrentMatching db opts)))"
  "\<exists>files. GetLocalFiles db opts = Inr (files, int (length (localMatching db opts)))"
  "\<exists>files. GetOrphanFiles db opts = Inr (files, int (length (orphanMatching db opts)))"
  using GetTorrentFiles_unfold [of opts db] GetLocalFiles_unfold [of opts db]
    GetOrphanFiles_unfold [of opts db]
  by (auto simp: torrentMatching_def localMatching_def orphanMatching_def)

lemma ceil_div:
  assumes "0 \<le> (n :: int)" "1 \<le> p"
  shows "(n + p - 1) div p = \<lceil>real_of_int n / real_of_int p\<rceil>"
proof -
  define q where "q = (n + p - 1) div p"
  define r where "r = (n + p - 1) mod p"
  have e: "n + p - 1 = p * q + r" by (simp add: q_def r_def)
  have r: "0 \<le> r" "r < p" using assms(2) by (simp_all add: r_def)
  have lo: "p * (q - 1) < n" using e r by (simp add: algebra_simps)
  have hi: "n \<le> p * q" using e r by (simp add: algebra_simps)
  have pp: "0 < real_of_int p" using assms(2) by simp
  have "real_of_int n \<le> real_of_int (p * q)" using hi by (simp only: of_int_le_iff)
  then have a: "real_of_int n / real_of_int p \<le> real_of_int q"
    using pp by (simp add: divide_le_eq mult.commute)
  have "real_of_int (p * (q - 1)) < real_of_int n" using lo by (simp only: of_int_less_iff)
  then have b: "real_of_int q - 1 < real_of_int n / real_of_int p"
    using pp by (simp add: less_divide_eq mult.commute algebra_simps)
  from a b have "\<lceil>real_of_int n / real_of_int p\<rceil> = q" by (intro ceiling_unique) simp_all
  then show ?thesis by (simp add: q_def)
qed

lemma div_le_dividend_int:
  "0 \<le> (n::int) \<Longrightarrow> 1 \<le> p \<Longrightarrow> (n + p - 1) div p \<le> n + p - 1"
  by (smt (verit) div_by_1 zdiv_mono2)

lemma totalPages_ceiling:
  assumes "0 \<le> n" "1 \<le> perPage" "n + perPage \<le> 2 ^ 63"
  shows "totalPages n perPage = Inr \<lceil>real_of_int n / real_of_int perPage\<rceil>"
proof -
  have a: "wrap64 (n + perPage) = n + perPage \<or> n + perPage = 2 ^ 63" using assms
    by (cases "n + perPage = 2 ^ 63") (simp_all add: wrap64_id)
  have b: "wrap64 (wrap64 (n + perPage) - 1) = n + perPage - 1"
  proof (cases "n + perPage = 2 ^ 63")
    case True
    then show ?thesis by (simp add: wrap64_def)
  next
    case False
    with assms have "wrap64 (n + perPage) = n + perPage" by (simp add: wrap64_id)
    with assms show ?thesis by (simp add: wrap64_id)
  qed
  have c: "quo (n + perPage - 1) perPage = (n + perPage - 1) div perPage"
    using assms by (simp add: quo_def)
  have d: "0 \<le> (n + perPage - 1) div perPage" "(n + perPage - 1) div perPage \<le> n + perPage - 1"
    using assms div_le_dividend_int [of n perPage] by (simp_all add: pos_imp_zdiv_nonneg_iff)
  then have "wrap64 ((n + perPage - 1) div perPage) = (n + perPage - 1) div perPage"
    using assms by (intro wrap64_id) simp_all
  with b c assms show ?thesis by (simp add: totalPages_def ceil_div)
qed


lemma totalPages_covers:
  assumes "0 \<le> n" "1 \<le> perPage" "n + perPage \<le> 2 ^ 63" "totalPages n perPage = Inr tp"
  shows "n \<le> tp * perPage"
proof -
  have "tp = \<lceil>real_of_int n / real_of_int perPage\<rceil>"
    using totalPages_ceiling [OF assms(1-3)] assms(4) by simp
  then have "tp = (n + perPage - 1) div perPage" using assms by (simp add: ceil_div)
  moreover have "n + perPage - 1 = perPage * ((n + perPage - 1) div perPage)
      + (n + perPage - 1) mod perPage" by simp
  moreover have "(n + perPage - 1) mod perPage < perPage" using assms(2) by simp
  ultimately show ?thesis by (smt (verit) mult.commute)
qed

lemma pageWindow_beyond:
  assumes "1 \<le> QueryOptions.Page opts" "1 \<le> QueryOptions.PerPage opts"
    and "QueryOptions.PerPage opts \<le> 1000"
    and "(QueryOptions.Page opts - 1) * QueryOptions.PerPage opts < 2 ^ 63"
    and "int (length rows) + QueryOptions.PerPage opts \<le> 2 ^ 63"
    and "totalPages (int (length rows)) (QueryOptions.PerPage opts) = Inr tp"
    and "tp < QueryOptions.Page opts"
  shows "pageWindow opts rows = []"
proof -
  let ?p = "QueryOptions.Page opts" and ?pp = "QueryOptions.PerPage opts"
  have n: "QueryOptions.Page (normalizeQueryOptions opts) = ?p"
    "QueryOptions.PerPage (normalizeQueryOptions opts) = ?pp"
    using assms(1-3) by (simp_all add: normalizeQueryOptions_Page normalizeQueryOptions_PerPage)
  have c: "int (length rows) \<le> tp * ?pp"
    using totalPages_covers [OF _ assms(2) assms(5) assms(6)] by simp
  have "tp * ?pp \<le> (?p - 1) * ?pp" using assms(2,7) by (intro mult_right_mono) simp_all
  with c have le: "int (length rows) \<le> (?p - 1) * ?pp" by simp
  have "0 \<le> (?p - 1) * ?pp" using assms(1,2) by simp
  then have "wrap64 ((?p - 1) * ?pp) = (?p - 1) * ?pp" using assms(4) by (intro wrap64_id) simp_all
  with le show ?thesis by (simp add: pageWindow_def n sql_limit_def Let_def)
qed

text \<open>
  Where the page arithmetic does not overflow, a page beyond the last one is empty: the
  three query functions return no record when \<open>page\<close> is greater than
  \<open>totalPages\<close> of the total they report.
\<close>

lemma page_beyond_total_pages_empty:
  assumes "1 \<le> QueryOptions.Page opts" "1 \<le> QueryOptions.PerPage opts"
    and "QueryOptions.PerPage opts \<le> 1000"
    and "(QueryOptions.Page opts - 1) * QueryOptions.PerPage opts < 2 ^ 63"
    and "n + QueryOptions.PerPage opts \<le> 2 ^ 63"
    and "totalPages n (QueryOptions.PerPage opts) = Inr tp"
    and "tp < QueryOptions.Page opts"
  shows "GetTorrentFiles db opts = Inr (tfiles, n) \<Longrightarrow> tfiles = []"
    and "GetLocalFiles db opts = Inr (lfiles, n) \<Longrightarrow> lfiles = []"
    and "GetOrphanFiles db opts = Inr (ofiles, n) \<Longrightarrow> ofiles = []"
proof -
  assume g: "GetTorrentFiles db opts = Inr (tfiles, n)"
  obtain ordered where o: "mset ordered = mset (torrentMatching db opts)"
    "GetTorrentFiles db opts = Inr (map scanTorrentFile (pageWindow opts ordered),
        int (length (torrentMatching db opts)))"
    using GetTorrentFiles_unfold [of opts db]
    unfolding torrentMatching_def pageWindow_def by blast
  have "length ordered = length (torrentMatching db opts)" using o(1) by (rule mset_eq_length)
  with g o(2) have "int (length ordered) = n" "tfiles = map scanTorrentFile (pageWindow opts ordered)"
    by simp_all
  then show "tfiles = []"
    using pageWindow_beyond [OF assms(1-4), of ordered tp] assms(5-7) by simp
next
  assume g: "GetLocalFiles db opts = Inr (lfiles, n)"
  obtain ordered where o: "mset ordered = mset (localMatching db opts)"
    "GetLocalFiles db opts = Inr (map scanLocalFile (pageWindow opts ordered),
        int (length (localMatching db opts)))"
    using GetLocalFiles_unfold [of opts db]
    unfolding localMatching_def pageWindow_def by blast
  have "length ordered = length (localMatching db opts)" using o(1) by (rule mset_eq_length)
  with g o(2) have "int (length ordered) = n" "lfiles = map scanLocalFile (pageWindow opts ordered)"
    by simp_all
  then show "lfiles = []"
    using pageWindow_beyond [OF assms(1-4), of ordered tp] assms(5-7) by simp
next
  assume g: "GetOrphanFiles db opts = Inr (ofiles, n)"
  obtain ordered where o: "mset ordered = mset (orphanMatching db opts)"
    "GetOrphanFiles db opts = Inr (map scanOrphanFile (pageWindow opts ordered),
        int (length (orphanMatching db opts)))"
    using GetOrphanFiles_unfold [of opts db]
    unfolding orphanMatching_def pageWindow_def by blast
  have "length ordered = length (orphanMatching db opts)" using o(1) by (rule mset_eq_length)
  with g o(2) have "int (length ordered) = n" "ofiles = map scanOrphanFile (pageWindow opts ordered)"
    by simp_all
  then show "ofiles = []"
    using pageWindow_beyond [OF assms(1-4), of ordered tp] assms(5-7) by simp
qed

text \<open>
  Claim C7 at the request \<open>page=4611686018427387905&per_page=4\<close> on the scenario's
  store. The offset \<open>(page - 1) * perPage = 2\<^sup>6\<^sup>2 * 4\<close> wraps around to 0 in 64-bit
  arithmetic, so the handler answers with the two stored local files although the page
  is far beyond \<open>total_pages = 1\<close>.
\<close>

theorem huge_page_returns_first_rows:
  "Atoi (hugePageQuery ''page'') = Some 4611686018427387905
   \<and> wrap64 ((4611686018427387905 - 1) * 4) = 0
   \<and> handleLocalFiles scenarioDB hugePageQuery =
       Status200 \<lparr> Data =
           [\<lparr> LocalFile.FilePath = ''/movies/A/f1.mkv'', LocalFile.FileName = ''f1.mkv'',
              LocalFile.Size = 100, LocalFile.Category = ''movies'' \<rparr>,
            \<lparr> LocalFile.FilePath = ''/shows/B/f2.mkv'', LocalFile.FileName = ''f2.mkv'',
              LocalFile.Size = 200, LocalFile.Category = ''shows'' \<rparr>],
           Total = 2, Page = 4611686018427387905, PerPage = 4, TotalPages = 1 \<rparr>"
proof -
  have a: "Atoi (hugePageQuery ''page'') = Some 4611686018427387905"
    "Atoi (hugePageQuery ''per_page'') = Some 4"
    by (simp_all add: hugePageQuery_def Atoi_def digitVal_def Let_def)
  have o: "parseQueryOptions hugePageQuery =
      \<lparr> QueryOptions.Page = 4611686018427387905, QueryOptions.PerPage = 4, Sort = [],
        Order = ''asc'', Search = [], QueryOptions.Category = [] \<rparr>"
    using a by (simp add: parseQueryOptions_def Let_def) (simp add: hugePageQuery_def)
  have w: "wrap64 ((4611686018427387905 - 1) * 4) = 0" by (simp add: wrap64_def)
  have g: "GetLocalFiles scenarioDB
      \<lparr> QueryOptions.Page = 4611686018427387905, QueryOptions.PerPage = 4, Sort = [],
        Order = ''asc'', Search = [], QueryOptions.Category = [] \<rparr>
     = Inr ([\<lparr> LocalFile.FilePath = ''/movies/A/f1.mkv'', LocalFile.FileName = ''f1.mkv'',
              LocalFile.Size = 100, LocalFile.Category = ''movies'' \<rparr>,
            \<lparr> LocalFile.FilePath = ''/shows/B/f2.mkv'', LocalFile.FileName = ''f2.mkv'',
              LocalFile.Size = 200, LocalFile.Category = ''shows'' \<rparr>], 2)"
    by (simp add: GetLocalFiles_def scenarioDB_def query_eval)
  have t: "totalPages 2 4 = Inr 1" by (simp add: totalPages_def wrap64_def quo_def)
  show ?thesis
    using a(1) w by (simp add: handleLocalFiles_def Let_def o g paginated_def t)
qed

section \<open>More orphans than a page holds\<close>














end
